theory Spec2Isabelle
  imports Complex_Main "HOL-Library.AList"
begin

section \<open>deepmerge.py: merging directory trees\<close>

text \<open>
  A shallow embedding of \<^verbatim>\<open>deepmerge.py\<close>. The program is a script over the file
  system: it walks each source directory, copies what the destination lacks, and settles
  a name that exists on both sides by modification time and MD5 digest. Its global
  dictionary \<^verbatim>\<open>dest_hashes\<close>, the file system and the console are the state that the
  model threads through every function; every exception the script can raise is a value.
\<close>

subsection \<open>Paths, files and the file system\<close>

text \<open>
  A path is the Python string the script builds. The script joins path parts with
  \<^verbatim>\<open>os.path.sep.join\<close>; the separator is the slash. A path names the entry stored under
  exactly that string: the model does no normalisation (no \<^verbatim>\<open>..\<close>, no doubled
  separators) and has no symbolic links.
\<close>

type_synonym path = string

definition sep_join :: "path \<Rightarrow> string \<Rightarrow> path" where
  "sep_join a b = a @ ''/'' @ b"

definition basename :: "path \<Rightarrow> string" where
  "basename p = rev (takeWhile (\<lambda>c. c \<noteq> CHR ''/'') (rev p))"

definition dirname :: "path \<Rightarrow> path" where
  "dirname p = rev (drop 1 (dropWhile (\<lambda>c. c \<noteq> CHR ''/'') (rev p)))"

text \<open>
  A regular file has its bytes and the two times that \<^verbatim>\<open>os.utime\<close> sets and
  \<^verbatim>\<open>shutil.copy2\<close> carries over. Times are the float seconds of \<^verbatim>\<open>st_mtime\<close>, read as
  the real numbers they denote (the script only compares them and formats them; the
  round-off of a float on its way through \<^verbatim>\<open>os.utime\<close> is not modelled). Reading a
  file leaves its access time alone.
\<close>

record regfile =
  content :: string
  st_atime :: real
  st_mtime :: real

datatype node = File regfile | Dir

text \<open>
  The file system is an association list from paths to nodes; the order of the list is the
  order in which \<^verbatim>\<open>os.listdir\<close> yields the entries.
\<close>

type_synonym filesystem = "(path \<times> node) list"

datatype exn =
    FileNotFoundError path
  | FileExistsError path
  | IsADirectoryError path
  | NotADirectoryError path
  | SameFileError path path
  | ShutilError path
  | KeyError path
  | RecursionError

definition os_path_exists :: "filesystem \<Rightarrow> path \<Rightarrow> bool" where
  "os_path_exists fs p = (map_of fs p \<noteq> None)"

definition os_path_isdir :: "filesystem \<Rightarrow> path \<Rightarrow> bool" where
  "os_path_isdir fs p = (map_of fs p = Some Dir)"

text \<open>
  \<^verbatim>\<open>os.mkdir\<close> refuses a path that exists, and a path whose parent is missing or is a
  file. A path with nothing before its last separator lies in the working directory or in
  the root, which exist.
\<close>

definition os_mkdir :: "path \<Rightarrow> filesystem \<Rightarrow> exn + filesystem" where
  "os_mkdir p fs =
     (if os_path_exists fs p then Inl (FileExistsError p)
      else if dirname p = [] then Inr (AList.update p Dir fs)
      else (case map_of fs (dirname p) of
              None \<Rightarrow> Inl (FileNotFoundError p)
            | Some (File _) \<Rightarrow> Inl (NotADirectoryError p)
            | Some Dir \<Rightarrow> Inr (AList.update p Dir fs)))"

definition is_child :: "path \<Rightarrow> path \<Rightarrow> bool" where
  "is_child p k =
     (take (length p + 1) k = p @ ''/'' \<and> drop (length p + 1) k \<noteq> [] \<and>
      CHR ''/'' \<notin> set (drop (length p + 1) k))"

definition children :: "filesystem \<Rightarrow> path \<Rightarrow> string list" where
  "children fs p = remdups (map (drop (length p + 1)) (filter (is_child p) (map fst fs)))"

definition os_listdir :: "filesystem \<Rightarrow> path \<Rightarrow> exn + string list" where
  "os_listdir fs p =
     (case map_of fs p of
        None \<Rightarrow> Inl (FileNotFoundError p)
      | Some (File _) \<Rightarrow> Inl (NotADirectoryError p)
      | Some Dir \<Rightarrow> Inr (children fs p))"

text \<open>
  \<^verbatim>\<open>os.stat(p).st_mtime\<close>. The times of directories are not tracked: the script reads
  the time of a directory only on paths that raise before the time is compared.
\<close>

definition os_stat_mtime :: "filesystem \<Rightarrow> path \<Rightarrow> exn + real" where
  "os_stat_mtime fs p =
     (case map_of fs p of
        None \<Rightarrow> Inl (FileNotFoundError p)
      | Some (File f) \<Rightarrow> Inr (st_mtime f)
      | Some Dir \<Rightarrow> Inr 0)"

text \<open>\<^verbatim>\<open>open(p, 'rb').read()\<close>\<close>

definition read_bytes :: "filesystem \<Rightarrow> path \<Rightarrow> exn + string" where
  "read_bytes fs p =
     (case map_of fs p of
        None \<Rightarrow> Inl (FileNotFoundError p)
      | Some Dir \<Rightarrow> Inl (IsADirectoryError p)
      | Some (File f) \<Rightarrow> Inr (content f))"

text \<open>\<^verbatim>\<open>os.utime(p, (atime, mtime))\<close>\<close>

definition os_utime :: "path \<Rightarrow> real \<times> real \<Rightarrow> filesystem \<Rightarrow> exn + filesystem" where
  "os_utime p ts fs =
     (case map_of fs p of
        None \<Rightarrow> Inl (FileNotFoundError p)
      | Some Dir \<Rightarrow> Inr fs
      | Some (File f) \<Rightarrow>
          Inr (AList.update p (File (f\<lparr>st_atime := fst ts, st_mtime := snd ts\<rparr>)) fs))"

text \<open>
  \<^verbatim>\<open>shutil.copy2(src, dst)\<close>: a destination that is a directory receives the file under
  the source's base name; copying a file onto itself is refused; the copy has the bytes
  and the times of the source and replaces a file already there.
\<close>

definition shutil_copy2 :: "path \<Rightarrow> path \<Rightarrow> filesystem \<Rightarrow> exn + filesystem" where
  "shutil_copy2 src dst fs =
     (let real_dst = (if os_path_isdir fs dst then sep_join dst (basename src) else dst) in
      if os_path_exists fs src \<and> real_dst = src then Inl (SameFileError src real_dst)
      else (case map_of fs src of
              None \<Rightarrow> Inl (FileNotFoundError src)
            | Some Dir \<Rightarrow> Inl (IsADirectoryError src)
            | Some (File f) \<Rightarrow>
                (case map_of fs real_dst of
                   Some Dir \<Rightarrow> Inl (IsADirectoryError real_dst)
                 | _ \<Rightarrow> Inr (AList.update real_dst (File f) fs))))"

text \<open>
  \<^verbatim>\<open>os.rename(src, dst)\<close> on POSIX replaces a file at the destination. The script
  renames only a path it has just read as a regular file; for a directory the model moves
  the entry alone.
\<close>

definition os_rename :: "path \<Rightarrow> path \<Rightarrow> filesystem \<Rightarrow> exn + filesystem" where
  "os_rename src dst fs =
     (case map_of fs src of
        None \<Rightarrow> Inl (FileNotFoundError src)
      | Some n \<Rightarrow>
          if src = dst then Inr fs
          else (case map_of fs dst of
                  Some Dir \<Rightarrow> Inl (IsADirectoryError dst)
                | _ \<Rightarrow> Inr (AList.update dst n (AList.delete src fs))))"

text \<open>
  \<^verbatim>\<open>shutil.move(src, dst)\<close>: a destination that is a directory receives the entry
  under the source's base name, unless that name is taken there.
\<close>

definition shutil_move :: "path \<Rightarrow> path \<Rightarrow> filesystem \<Rightarrow> exn + filesystem" where
  "shutil_move src dst fs =
     (if os_path_isdir fs dst then
        (if src = dst then Inr fs
         else if os_path_exists fs (sep_join dst (basename src))
         then Inl (ShutilError (sep_join dst (basename src)))
         else os_rename src (sep_join dst (basename src)) fs)
      else os_rename src dst fs)"

subsection \<open>The platform: digest and local time\<close>

text \<open>
  \<^verbatim>\<open>hashlib.md5(bytes).hexdigest()\<close> and the local-time conversion of
  \<^verbatim>\<open>datetime.datetime.fromtimestamp\<close> belong to the library and the machine's time
  zone; the model takes both as parameters.
\<close>

record datetime =
  year :: nat
  month :: nat
  day :: nat
  hour :: nat
  minute :: nat
  second :: nat

record platform =
  md5_hexdigest :: "string \<Rightarrow> string"
  fromtimestamp :: "real \<Rightarrow> datetime"

definition digit :: "nat \<Rightarrow> char" where
  "digit n = ''0123456789'' ! (n mod 10)"

fun decimal :: "nat \<Rightarrow> string" where
  "decimal n = (if n < 10 then [digit n] else decimal (n div 10) @ [digit n])"

declare decimal.simps [simp del]

definition zero_pad :: "nat \<Rightarrow> nat \<Rightarrow> string" where
  "zero_pad w n = replicate (w - length (decimal n)) CHR ''0'' @ decimal n"

text \<open>\<^verbatim>\<open>strftime('%Y-%m-%d--at--%H-%M-%S')\<close>\<close>

definition strftime :: "datetime \<Rightarrow> string" where
  "strftime d =
     zero_pad 4 (year d) @ ''-'' @ zero_pad 2 (month d) @ ''-'' @ zero_pad 2 (day d) @
     ''--at--'' @ zero_pad 2 (hour d) @ ''-'' @ zero_pad 2 (minute d) @ ''-'' @
     zero_pad 2 (second d)"

definition ts_str :: "platform \<Rightarrow> real \<Rightarrow> string" where
  "ts_str pf timestamp = strftime (fromtimestamp pf timestamp)"

subsection \<open>The state of a run\<close>

record state =
  files :: filesystem
  dest_hashes :: "path \<rightharpoonup> string list"
  stdout :: "string list"

record args =
  destination :: path
  source :: "path list"

definition print :: "string \<Rightarrow> state \<Rightarrow> state" where
  "print line st = st\<lparr>stdout := stdout st @ [line]\<rparr>"

text \<open>
  A function of the script returns \<open>Inr\<close> its result and the state it leaves, or
  \<open>Inl\<close> the exception it raises and the state at that moment.
\<close>

type_synonym 'a result = "(exn \<times> state) + 'a"

subsection \<open>\<^verbatim>\<open>assure_dest_hash\<close>\<close>

definition assure_dest_hash :: "platform \<Rightarrow> path \<Rightarrow> state \<Rightarrow> (string \<times> state) result" where
  "assure_dest_hash pf p st =
     (let st1 = (if dest_hashes st p = None
                 then st\<lparr>dest_hashes := (dest_hashes st)(p \<mapsto> [])\<rparr> else st) in
      case read_bytes (files st1) p of
        Inl e \<Rightarrow> Inl (e, st1)
      | Inr bytes \<Rightarrow>
          (let current_hash = md5_hexdigest pf bytes in
           case dest_hashes st1 p of
             None \<Rightarrow> Inl (KeyError p, st1)
           | Some hs \<Rightarrow>
               if current_hash \<notin> set hs
               then Inr (current_hash, st1\<lparr>dest_hashes := (dest_hashes st1)(p \<mapsto> hs @ [current_hash])\<rparr>)
               else Inr (current_hash, st1)))"

text \<open>\<^verbatim>\<open>dest_hashes[p].append(h)\<close>\<close>

definition append_hash :: "path \<Rightarrow> string \<Rightarrow> state \<Rightarrow> state result" where
  "append_hash p h st =
     (case dest_hashes st p of
        None \<Rightarrow> Inl (KeyError p, st)
      | Some hs \<Rightarrow> Inr (st\<lparr>dest_hashes := (dest_hashes st)(p \<mapsto> hs @ [h])\<rparr>))"

text \<open>\<^verbatim>\<open>h in dest_hashes[p]\<close>\<close>

definition hash_known :: "path \<Rightarrow> string \<Rightarrow> state \<Rightarrow> bool result" where
  "hash_known p h st =
     (case dest_hashes st p of
        None \<Rightarrow> Inl (KeyError p, st)
      | Some hs \<Rightarrow> Inr (h \<in> set hs))"

text \<open>A file-system primitive run on the state: its exception is raised in that state.\<close>

definition on_files :: "(filesystem \<Rightarrow> exn + filesystem) \<Rightarrow> state \<Rightarrow> state result" where
  "on_files f st =
     (case f (files st) of Inl e \<Rightarrow> Inl (e, st) | Inr fs \<Rightarrow> Inr (st\<lparr>files := fs\<rparr>))"

subsection \<open>The body of the loop of \<^verbatim>\<open>recurse_dir\<close> for an entry that is not a directory\<close>

text \<open>
  Lines 92 to 143 of the script, for the source path \<open>s\<close> and the destination path
  \<open>d\<close> (\<^verbatim>\<open>os.path.sep.join([source, f])\<close> and \<^verbatim>\<open>os.path.sep.join([dest, f])\<close>).
\<close>

definition newer_branch :: "platform \<Rightarrow> path \<Rightarrow> path \<Rightarrow> real \<Rightarrow> real \<Rightarrow> string \<Rightarrow> string \<Rightarrow> state \<Rightarrow> state result" where
  "newer_branch pf s d s_mod d_mod s_hash d_hash st =
     (if s_hash = d_hash then
        on_files (os_utime s (s_mod, s_mod))
          (print (s @ ''; newer but identical; updating modified date'') st)
      else
        (case on_files (shutil_move d (d @ ''--'' @ ts_str pf d_mod))
                (print (s @ ''; newer and different; save/copy'') st) of
           Inl e \<Rightarrow> Inl e
         | Inr st1 \<Rightarrow>
             (case on_files (shutil_copy2 s d) st1 of
                Inl e \<Rightarrow> Inl e
              | Inr st2 \<Rightarrow> append_hash d s_hash st2)))"

definition older_branch :: "platform \<Rightarrow> path \<Rightarrow> path \<Rightarrow> real \<Rightarrow> string \<Rightarrow> state \<Rightarrow> state result" where
  "older_branch pf s d s_mod s_hash st =
     (case hash_known d s_hash st of
        Inl e \<Rightarrow> Inl e
      | Inr True \<Rightarrow> Inr st
      | Inr False \<Rightarrow>
          (case on_files (shutil_copy2 s (d @ ''--'' @ ts_str pf s_mod))
                  (print (s @ ''; older but different; saving'') st) of
             Inl e \<Rightarrow> Inl e
           | Inr st1 \<Rightarrow> append_hash d s_hash st1))"

definition merge_file :: "platform \<Rightarrow> path \<Rightarrow> path \<Rightarrow> state \<Rightarrow> state result" where
  "merge_file pf s d st =
     (if \<not> os_path_exists (files st) d then
        (case on_files (shutil_copy2 s d) st of
           Inl e \<Rightarrow> Inl e
         | Inr st1 \<Rightarrow>
             (case assure_dest_hash pf d st1 of
                Inl e \<Rightarrow> Inl e
              | Inr (h, st2) \<Rightarrow> Inr st2))
      else
        (case os_stat_mtime (files st) s of
           Inl e \<Rightarrow> Inl (e, st)
         | Inr s_mod \<Rightarrow>
        (case os_stat_mtime (files st) d of
           Inl e \<Rightarrow> Inl (e, st)
         | Inr d_mod \<Rightarrow>
        (case read_bytes (files st) s of
           Inl e \<Rightarrow> Inl (e, st)
         | Inr bytes \<Rightarrow>
        (case assure_dest_hash pf d st of
           Inl e \<Rightarrow> Inl e
         | Inr (d_hash, st1) \<Rightarrow>
             if s_mod > d_mod
             then newer_branch pf s d s_mod d_mod (md5_hexdigest pf bytes) d_hash st1
             else if s_mod \<noteq> d_mod
             then older_branch pf s d s_mod (md5_hexdigest pf bytes) st1
             else Inr st1)))))"

subsection \<open>\<^verbatim>\<open>recurse_dir\<close>\<close>

text \<open>
  The first argument is the number of nested calls of \<^verbatim>\<open>recurse_dir\<close> the interpreter
  still allows: Python raises \<^verbatim>\<open>RecursionError\<close> beyond its recursion limit, which is
  what ends the walk of a source tree that contains the destination. \<open>walk\<close> is the
  \<^verbatim>\<open>for f in os.listdir(source)\<close> loop over the names listed before its first step.
\<close>

fun recurse_dir :: "platform \<Rightarrow> args \<Rightarrow> nat \<Rightarrow> path \<Rightarrow> path option \<Rightarrow> state \<Rightarrow> state result"
  and walk :: "platform \<Rightarrow> args \<Rightarrow> nat \<Rightarrow> path \<Rightarrow> path option \<Rightarrow> string list \<Rightarrow> state \<Rightarrow> state result"
where
  "recurse_dir pf a 0 source_dir sub_dir st = Inl (RecursionError, st)"
| "recurse_dir pf a (Suc n) source_dir sub_dir st =
     (let dest = (case sub_dir of None \<Rightarrow> destination a
                  | Some sd \<Rightarrow> sep_join (destination a) sd);
          source = (case sub_dir of None \<Rightarrow> source_dir | Some sd \<Rightarrow> sep_join source_dir sd)
      in case (if \<not> os_path_isdir (files st) dest then on_files (os_mkdir dest) st else Inr st) of
           Inl e \<Rightarrow> Inl e
         | Inr st1 \<Rightarrow>
             (case os_listdir (files st1) source of
                Inl e \<Rightarrow> Inl (e, st1)
              | Inr names \<Rightarrow> walk pf a n source_dir sub_dir names st1))"
| "walk pf a n source_dir sub_dir [] st = Inr st"
| "walk pf a n source_dir sub_dir (f # rest) st =
     (let dest = (case sub_dir of None \<Rightarrow> destination a
                  | Some sd \<Rightarrow> sep_join (destination a) sd);
          source = (case sub_dir of None \<Rightarrow> source_dir | Some sd \<Rightarrow> sep_join source_dir sd)
      in case (if os_path_isdir (files st) (sep_join source f)
               then recurse_dir pf a n source_dir
                      (Some (case sub_dir of None \<Rightarrow> f | Some sd \<Rightarrow> sep_join sd f)) st
               else merge_file pf (sep_join source f) (sep_join dest f) st) of
           Inl e \<Rightarrow> Inl e
         | Inr st1 \<Rightarrow> walk pf a n source_dir sub_dir rest st1)"

subsection \<open>The main entry point\<close>

text \<open>
  The script ends by \<^verbatim>\<open>sys.exit(-1)\<close>, by an exception nobody catches, or by running
  off its last line. \<^verbatim>\<open>args.source\<close> is always a list (\<^verbatim>\<open>nargs='*'\<close>), so the first
  sanity check never fires.
\<close>

datatype ending = Completed | SysExit int | Uncaught exn

definition exit_status :: "ending \<Rightarrow> int" where
  "exit_status e = (case e of Completed \<Rightarrow> 0 | SysExit n \<Rightarrow> n mod 256 | Uncaught _ \<Rightarrow> 1)"

fun merge_sources :: "platform \<Rightarrow> args \<Rightarrow> nat \<Rightarrow> path list \<Rightarrow> state \<Rightarrow> state result" where
  "merge_sources pf a limit [] st = Inr st"
| "merge_sources pf a limit (src # rest) st =
     (case recurse_dir pf a limit src None
             (print (''####### Processing source '' @ src @ '' #######'') st) of
        Inl e \<Rightarrow> Inl e
      | Inr st1 \<Rightarrow> merge_sources pf a limit rest st1)"

definition main :: "platform \<Rightarrow> nat \<Rightarrow> args \<Rightarrow> state \<Rightarrow> ending \<times> state" where
  "main pf limit a st =
     (case find (\<lambda>src. \<not> os_path_isdir (files st) src) (source a) of
        Some src \<Rightarrow> (SysExit (- 1), print (''ERROR: source path '' @ src @ '' does not exist'') st)
      | None \<Rightarrow>
          (case merge_sources pf a limit (source a) st of
             Inl (e, st1) \<Rightarrow> (Uncaught e, st1)
           | Inr st1 \<Rightarrow> (Completed, print ''Run complete'' st1)))"

text \<open>A process starts with an empty \<^verbatim>\<open>dest_hashes\<close> and has printed nothing.\<close>

definition start :: "filesystem \<Rightarrow> state" where
  "start fs = \<lparr>files = fs, dest_hashes = Map.empty, stdout = []\<rparr>"

subsection \<open>Notions used to state the properties\<close>

text \<open>
  The digests recorded for a path, as a list (no entry reads as the empty list), and the
  list that results when \<^verbatim>\<open>assure_dest_hash\<close> has seen a digest.
\<close>

definition ledger :: "state \<Rightarrow> path \<Rightarrow> string list" where
  "ledger st p = (case dest_hashes st p of None \<Rightarrow> [] | Some hs \<Rightarrow> hs)"

definition record_hash :: "string \<Rightarrow> string list \<Rightarrow> string list" where
  "record_hash h hs = (if h \<in> set hs then hs else hs @ [h])"

text \<open>The digest of the regular file at a path, if there is one.\<close>

definition digest_at :: "platform \<Rightarrow> filesystem \<Rightarrow> path \<Rightarrow> string option" where
  "digest_at pf fs p =
     (case map_of fs p of Some (File f) \<Rightarrow> Some (md5_hexdigest pf (content f)) | _ \<Rightarrow> None)"

text \<open>
  A digest is preserved for the destination path \<open>d\<close> when \<open>d\<close> itself, or a path
  that extends \<open>d\<close> by \<^verbatim>\<open>--\<close> and a suffix, is a regular file with that digest.
\<close>

definition preserved :: "platform \<Rightarrow> filesystem \<Rightarrow> path \<Rightarrow> string \<Rightarrow> bool" where
  "preserved pf fs d h =
     (\<exists>p \<in> set (map fst fs).
        (p = d \<or> take (length d + 2) p = d @ ''--'') \<and> digest_at pf fs p = Some h)"

text \<open>Whether a call returned, and the state it left (also when it raised).\<close>

definition returned :: "state result \<Rightarrow> bool" where
  "returned r = (case r of Inl _ \<Rightarrow> False | Inr _ \<Rightarrow> True)"

definition state_of :: "state result \<Rightarrow> state" where
  "state_of r = (case r of Inl (e, st) \<Rightarrow> st | Inr st \<Rightarrow> st)"

text \<open>
  The changes of state a run is made of: a line printed, a destination directory made,
  a file merged (returning or raising). \<open>run_steps\<close> is any number of them in a row.
\<close>

inductive run_step :: "platform \<Rightarrow> state \<Rightarrow> state \<Rightarrow> bool" for pf :: platform where
  printed: "run_step pf st (print line st)"
| made_dir: "on_files (os_mkdir p) st = Inr st' \<Longrightarrow> run_step pf st st'"
| merged: "merge_file pf s d st = Inr st' \<Longrightarrow> run_step pf st st'"
| raised: "merge_file pf s d st = Inl (e, st') \<Longrightarrow> run_step pf st st'"

definition run_steps :: "platform \<Rightarrow> state \<Rightarrow> state \<Rightarrow> bool" where
  "run_steps pf = (run_step pf)\<^sup>*\<^sup>*"

text \<open>
  The two directories a call of \<^verbatim>\<open>recurse_dir\<close> works on: the \<^verbatim>\<open>source\<close> and
  \<^verbatim>\<open>dest\<close> it computes from its arguments.
\<close>

definition source_path :: "path \<Rightarrow> path option \<Rightarrow> path" where
  "source_path source_dir sub_dir =
     (case sub_dir of None \<Rightarrow> source_dir | Some sd \<Rightarrow> sep_join source_dir sd)"

definition dest_path :: "args \<Rightarrow> path option \<Rightarrow> path" where
  "dest_path a sub_dir =
     (case sub_dir of None \<Rightarrow> destination a | Some sd \<Rightarrow> sep_join (destination a) sd)"






text \<open>A file system keeps another one's content when it preserves every digest that one does.\<close>

definition keeps :: "platform \<Rightarrow> filesystem \<Rightarrow> filesystem \<Rightarrow> bool" where
  "keeps pf fs fs' = (\<forall>d h. preserved pf fs d h \<longrightarrow> preserved pf fs' d h)"

subsection \<open>Sample inputs\<close>

text \<open>
  A platform for the examples: the digest of a byte string is the string itself (no two
  contents collide), and the clock is UTC on the first day of 1970, which is exact for
  the times from 0 to 86399 that the examples use.
\<close>

definition utc_first_day :: "real \<Rightarrow> datetime" where
  "utc_first_day t =
     \<lparr>year = 1970, month = 1, day = 1, hour = nat \<lfloor>t\<rfloor> div 3600 mod 24,
      minute = nat \<lfloor>t\<rfloor> div 60 mod 60, second = nat \<lfloor>t\<rfloor> mod 60\<rparr>"

definition sample_platform :: platform where
  "sample_platform = \<lparr>md5_hexdigest = (\<lambda>bytes. bytes), fromtimestamp = utc_first_day\<rparr>"

definition regular :: "string \<Rightarrow> real \<Rightarrow> node" where
  "regular c t = File \<lparr>content = c, st_atime = t, st_mtime = t\<rparr>"

text \<open>
  A destination \<^verbatim>\<open>dst\<close> and a source root \<^verbatim>\<open>src\<close>, each holding a file
  \<^verbatim>\<open>f\<close> with the given bytes and time.
\<close>

definition sample_tree :: "string \<Rightarrow> real \<Rightarrow> string \<Rightarrow> real \<Rightarrow> filesystem" where
  "sample_tree dc dt sc st =
     [(''dst'', Dir), (''dst/f'', regular dc dt), (''src'', Dir), (''src/f'', regular sc st)]"

definition sample_args :: args where
  "sample_args = \<lparr>destination = ''dst'', source = [''src'']\<rparr>"

text \<open>The same with two source roots \<^verbatim>\<open>s1\<close> and \<^verbatim>\<open>s2\<close>, merged in this order.\<close>

definition two_source_tree ::
  "string \<Rightarrow> real \<Rightarrow> string \<Rightarrow> real \<Rightarrow> string \<Rightarrow> real \<Rightarrow> filesystem" where
  "two_source_tree dc dt c1 t1 c2 t2 =
     [(''dst'', Dir), (''dst/f'', regular dc dt), (''s1'', Dir), (''s1/f'', regular c1 t1),
      (''s2'', Dir), (''s2/f'', regular c2 t2)]"

definition two_source_args :: args where
  "two_source_args = \<lparr>destination = ''dst'', source = [''s1'', ''s2'']\<rparr>"

text \<open>
  Trees with a type mismatch: a source directory whose destination path is a regular
  file, and a source file whose destination path is a directory.
\<close>

definition dir_onto_file_tree :: filesystem where
  "dir_onto_file_tree =
     [(''dst'', Dir), (''dst/sub'', regular ''A'' 10), (''src'', Dir), (''src/sub'', Dir)]"

definition file_onto_dir_tree :: filesystem where
  "file_onto_dir_tree =
     [(''dst'', Dir), (''dst/f'', Dir), (''src'', Dir), (''src/f'', regular ''B'' 20)]"

section \<open>Properties\<close>

subsection \<open>Auxiliary facts: the primitives on regular files\<close>

lemma assure_dest_hash_file:
  assumes "map_of (files st) p = Some (File f)"
  shows "assure_dest_hash pf p st =
           Inr (md5_hexdigest pf (content f),
                st\<lparr>dest_hashes := (dest_hashes st)(p \<mapsto> record_hash (md5_hexdigest pf (content f)) (ledger st p))\<rparr>)"
proof (cases "dest_hashes st p")
  case None
  then show ?thesis using assms
    by (simp add: assure_dest_hash_def read_bytes_def ledger_def record_hash_def Let_def)
next
  case (Some hs)
  have triv: "st\<lparr>dest_hashes := (dest_hashes st)(p \<mapsto> hs)\<rparr> = st"
    using Some by (simp add: map_upd_triv)
  show ?thesis using assms Some triv
    by (simp add: assure_dest_hash_def read_bytes_def ledger_def record_hash_def Let_def)
qed

lemma assure_dest_hash_dir:
  assumes "map_of (files st) p = Some Dir"
  shows "\<exists>st'. assure_dest_hash pf p st = Inl (IsADirectoryError p, st') \<and> files st' = files st \<and> stdout st' = stdout st"
  using assms by (simp add: assure_dest_hash_def read_bytes_def Let_def)

lemma digit_in: "digit n \<in> set ''0123456789''"
  unfolding digit_def by (rule nth_mem) simp

lemma decimal_digits: "set (decimal n) \<subseteq> set ''0123456789''"
proof (induction n rule: decimal.induct)
  case (1 n)
  show ?case
  proof (cases "n < 10")
    case True
    then show ?thesis using digit_in [of n] by (subst decimal.simps) simp
  next
    case False
    have "set (decimal (n div 10)) \<subseteq> set ''0123456789''" using 1 False by simp
    then show ?thesis using False digit_in [of n] by (subst decimal.simps) simp
  qed
qed

lemma zero_pad_digits: "set (zero_pad w n) \<subseteq> set ''0123456789''"
  using decimal_digits [of n] by (auto simp: zero_pad_def)

lemma strftime_no_sep: "CHR ''/'' \<notin> set (strftime d)"
proof -
  have "CHR ''/'' \<notin> set (zero_pad w n)" for w n
    using zero_pad_digits [of w n] by auto
  then show ?thesis by (simp add: strftime_def)
qed

lemma ts_str_no_sep: "CHR ''/'' \<notin> set (ts_str pf t)"
  by (simp add: ts_str_def strftime_no_sep)

lemma basename_append:
  assumes "CHR ''/'' \<notin> set x"
  shows "basename (d @ x) = basename d @ x"
proof -
  have "takeWhile (\<lambda>c. c \<noteq> CHR ''/'') (rev x @ rev d) = rev x @ takeWhile (\<lambda>c. c \<noteq> CHR ''/'') (rev d)"
    using assms by (intro takeWhile_append2) auto
  then show ?thesis by (simp add: basename_def)
qed

lemma suffixed_neq:
  assumes "basename s = basename d"
  shows "s \<noteq> d @ ''--'' @ ts_str pf t"
proof
  assume "s = d @ ''--'' @ ts_str pf t"
  then have "basename s = basename d @ ''--'' @ ts_str pf t"
    using basename_append [of "''--'' @ ts_str pf t" d] ts_str_no_sep [of pf t] by simp
  with assms show False by simp
qed

lemma shutil_copy2_file:
  assumes "map_of fs src = Some (File f)" "\<not> os_path_isdir fs dst" "dst \<noteq> src"
  shows "shutil_copy2 src dst fs = Inr (AList.update dst (File f) fs)"
  using assms
  by (auto simp: shutil_copy2_def os_path_isdir_def os_path_exists_def split: option.splits node.splits)

lemma shutil_move_file:
  assumes "map_of fs src = Some n" "\<not> os_path_isdir fs dst" "dst \<noteq> src"
  shows "shutil_move src dst fs = Inr (AList.update dst n (AList.delete src fs))"
  using assms
  by (auto simp: shutil_move_def os_rename_def os_path_isdir_def split: option.splits node.splits)

lemma merge_file_conflict:
  assumes "map_of (files st) s = Some (File fs)" "map_of (files st) d = Some (File fd)"
  shows "merge_file pf s d st =
     (let st1 = st\<lparr>dest_hashes := (dest_hashes st)(d \<mapsto> record_hash (md5_hexdigest pf (content fd)) (ledger st d))\<rparr> in
      if st_mtime fs > st_mtime fd
      then newer_branch pf s d (st_mtime fs) (st_mtime fd) (md5_hexdigest pf (content fs)) (md5_hexdigest pf (content fd)) st1
      else if st_mtime fs \<noteq> st_mtime fd
      then older_branch pf s d (st_mtime fs) (md5_hexdigest pf (content fs)) st1
      else Inr st1)"
  using assms
  by (simp add: merge_file_def os_path_exists_def os_stat_mtime_def read_bytes_def
      assure_dest_hash_file Let_def)



lemma newer_identical:
  assumes s: "map_of (files st) s = Some (File fs)" and d: "map_of (files st) d = Some (File fd)"
    and newer: "st_mtime fd < st_mtime fs"
    and same: "md5_hexdigest pf (content fs) = md5_hexdigest pf (content fd)"
  shows "merge_file pf s d st =
           Inr (st\<lparr>files := AList.update s (File (fs\<lparr>st_atime := st_mtime fs\<rparr>)) (files st),
                   dest_hashes := (dest_hashes st)(d \<mapsto> record_hash (md5_hexdigest pf (content fd)) (ledger st d)),
                   stdout := stdout st @ [s @ ''; newer but identical; updating modified date'']\<rparr>)"
  using assms
  by (simp add: merge_file_conflict newer_branch_def on_files_def os_utime_def print_def)

lemma equal_times:
  assumes s: "map_of (files st) s = Some (File fs)" and d: "map_of (files st) d = Some (File fd)"
    and equal: "st_mtime fs = st_mtime fd"
  shows "merge_file pf s d st =
           Inr (st\<lparr>dest_hashes := (dest_hashes st)(d \<mapsto> record_hash (md5_hexdigest pf (content fd)) (ledger st d))\<rparr>)"
  using assms by (simp add: merge_file_conflict)

lemma newer_different:
  assumes s: "map_of (files st) s = Some (File fs)" and d: "map_of (files st) d = Some (File fd)"
    and newer: "st_mtime fd < st_mtime fs"
    and differ: "md5_hexdigest pf (content fs) \<noteq> md5_hexdigest pf (content fd)"
    and names: "basename s = basename d"
    and free: "\<not> os_path_isdir (files st) (d @ ''--'' @ ts_str pf (st_mtime fd))"
  shows "merge_file pf s d st =
           Inr (st\<lparr>files := AList.update d (File fs)
                              (AList.update (d @ ''--'' @ ts_str pf (st_mtime fd)) (File fd)
                                 (AList.delete d (files st))),
                   dest_hashes := (dest_hashes st)(d \<mapsto>
                      record_hash (md5_hexdigest pf (content fd)) (ledger st d) @ [md5_hexdigest pf (content fs)]),
                   stdout := stdout st @ [s @ ''; newer and different; save/copy'']\<rparr>)"
proof -
  let ?t = "d @ ''--'' @ ts_str pf (st_mtime fd)"
  have sd: "s \<noteq> d" using s d newer by auto
  have st: "s \<noteq> ?t" using names by (rule suffixed_neq)
  have dt: "?t \<noteq> d" by simp
  have mv: "shutil_move d ?t (files st) = Inr (AList.update ?t (File fd) (AList.delete d (files st)))"
    using d free dt by (rule shutil_move_file)
  let ?fs1 = "AList.update ?t (File fd) (AList.delete d (files st))"
  have s1: "map_of ?fs1 s = Some (File fs)"
    using s sd st by (simp add: update_conv' delete_conv')
  have d1: "\<not> os_path_isdir ?fs1 d"
    using dt by (simp add: os_path_isdir_def update_conv' delete_conv')
  have cp: "shutil_copy2 s d ?fs1 = Inr (AList.update d (File fs) ?fs1)"
    using s1 d1 sd [symmetric] by (rule shutil_copy2_file)
  show ?thesis
    using s d newer differ mv cp
    by (simp add: merge_file_conflict newer_branch_def on_files_def print_def append_hash_def)
qed

lemma older_different:
  assumes s: "map_of (files st) s = Some (File fs)" and d: "map_of (files st) d = Some (File fd)"
    and older: "st_mtime fs < st_mtime fd"
    and differ: "md5_hexdigest pf (content fs) \<noteq> md5_hexdigest pf (content fd)"
    and fresh: "md5_hexdigest pf (content fs) \<notin> set (ledger st d)"
    and names: "basename s = basename d"
    and free: "\<not> os_path_isdir (files st) (d @ ''--'' @ ts_str pf (st_mtime fs))"
  shows "merge_file pf s d st =
           Inr (st\<lparr>files := AList.update (d @ ''--'' @ ts_str pf (st_mtime fs)) (File fs) (files st),
                   dest_hashes := (dest_hashes st)(d \<mapsto>
                      record_hash (md5_hexdigest pf (content fd)) (ledger st d) @ [md5_hexdigest pf (content fs)]),
                   stdout := stdout st @ [s @ ''; older but different; saving'']\<rparr>)"
proof -
  let ?t = "d @ ''--'' @ ts_str pf (st_mtime fs)"
  have st: "?t \<noteq> s" using suffixed_neq [OF names, of pf "st_mtime fs"] by simp
  have cp: "shutil_copy2 s ?t (files st) = Inr (AList.update ?t (File fs) (files st))"
    using s free st by (rule shutil_copy2_file)
  have unknown: "md5_hexdigest pf (content fs) \<notin> set (record_hash (md5_hexdigest pf (content fd)) (ledger st d))"
    using differ fresh by (simp add: record_hash_def)
  show ?thesis
    using s d older unknown cp
    by (simp add: merge_file_conflict older_branch_def hash_known_def on_files_def print_def append_hash_def)
qed

lemma older_known:
  assumes s: "map_of (files st) s = Some (File fs)" and d: "map_of (files st) d = Some (File fd)"
    and older: "st_mtime fs < st_mtime fd"
    and known: "md5_hexdigest pf (content fs) \<in> set (record_hash (md5_hexdigest pf (content fd)) (ledger st d))"
  shows "merge_file pf s d st =
           Inr (st\<lparr>dest_hashes := (dest_hashes st)(d \<mapsto> record_hash (md5_hexdigest pf (content fd)) (ledger st d))\<rparr>)"
  using assms
  by (simp add: merge_file_conflict older_branch_def hash_known_def)

lemma md5_sample: "md5_hexdigest sample_platform bytes = bytes"
  by (simp add: sample_platform_def)

subsection \<open>Auxiliary facts: recorded digests are never removed\<close>

lemma ledger_print [simp]: "ledger (print l st) q = ledger st q"
  by (simp add: ledger_def print_def)

lemma assure_dest_hash_grows:
  assumes "assure_dest_hash pf p st = Inr (h, st') \<or> assure_dest_hash pf p st = Inl (e, st')"
  shows "set (ledger st q) \<subseteq> set (ledger st' q) \<and> files st' = files st \<and> stdout st' = stdout st"
  using assms
  by (auto simp: assure_dest_hash_def ledger_def Let_def split: sum.splits option.splits if_splits)

lemma on_files_keeps:
  assumes "on_files f st = Inr st' \<or> on_files f st = Inl (e, st')"
  shows "dest_hashes st' = dest_hashes st \<and> stdout st' = stdout st"
  using assms by (auto simp: on_files_def split: sum.splits)

lemma on_files_Inr:
  assumes "on_files f st = Inr st'"
  shows "f (files st) = Inr (files st')"
  using assms by (auto simp: on_files_def split: sum.splits)

lemma on_files_ledger:
  assumes "on_files f st = Inr st' \<or> on_files f st = Inl (e, st')"
  shows "ledger st' q = ledger st q"
  using on_files_keeps [OF assms] by (simp add: ledger_def)

lemma append_hash_grows:
  assumes "append_hash p h st = Inr st' \<or> append_hash p h st = Inl (e, st')"
  shows "set (ledger st q) \<subseteq> set (ledger st' q)"
  using assms by (auto simp: append_hash_def ledger_def split: option.splits)

lemma newer_branch_grows:
  assumes "newer_branch pf s d sm dm sh dh st = Inr st' \<or> newer_branch pf s d sm dm sh dh st = Inl (e, st')"
  shows "set (ledger st q) \<subseteq> set (ledger st' q)"
proof (cases "sh = dh")
  case True
  then have "on_files (os_utime s (sm, sm)) (print (s @ ''; newer but identical; updating modified date'') st) = Inr st'
     \<or> on_files (os_utime s (sm, sm)) (print (s @ ''; newer but identical; updating modified date'') st) = Inl (e, st')"
    using assms by (simp add: newer_branch_def)
  from on_files_ledger [OF this, of q] show ?thesis by simp
next
  case False
  let ?p = "print (s @ ''; newer and different; save/copy'') st"
  show ?thesis
  proof (cases "on_files (shutil_move d (d @ ''--'' @ ts_str pf dm)) ?p")
    case (Inl x)
    then have "on_files (shutil_move d (d @ ''--'' @ ts_str pf dm)) ?p = Inl (e, st')"
      using assms False by (simp add: newer_branch_def)
    from on_files_ledger [OF disjI2, OF this, of q] show ?thesis by simp
  next
    case (Inr st1)
    from on_files_ledger [OF disjI1, OF Inr, of q] have l1: "ledger st1 q = ledger st q" by simp
    show ?thesis
    proof (cases "on_files (shutil_copy2 s d) st1")
      case (Inl x)
      then have "on_files (shutil_copy2 s d) st1 = Inl (e, st')"
        using assms False Inr by (simp add: newer_branch_def)
      from on_files_ledger [OF disjI2, OF this, of q] l1 show ?thesis by simp
    next
      case (Inr st2)
      from on_files_ledger [OF disjI1, OF Inr, of q] l1 have l2: "ledger st2 q = ledger st q" by simp
      have "append_hash d sh st2 = Inr st' \<or> append_hash d sh st2 = Inl (e, st')"
        using assms False \<open>on_files (shutil_move d (d @ ''--'' @ ts_str pf dm)) ?p = Inr st1\<close> Inr
        by (simp add: newer_branch_def)
      from append_hash_grows [OF this, of q] l2 show ?thesis by simp
    qed
  qed
qed

lemma older_branch_grows:
  assumes "older_branch pf s d sm sh st = Inr st' \<or> older_branch pf s d sm sh st = Inl (e, st')"
  shows "set (ledger st q) \<subseteq> set (ledger st' q)"
proof (cases "dest_hashes st d")
  case None
  then show ?thesis using assms by (auto simp: older_branch_def hash_known_def)
next
  case (Some hs)
  show ?thesis
  proof (cases "sh \<in> set hs")
    case True
    then show ?thesis using assms Some by (auto simp: older_branch_def hash_known_def)
  next
    case False
    let ?p = "print (s @ ''; older but different; saving'') st"
    show ?thesis
    proof (cases "on_files (shutil_copy2 s (d @ ''--'' @ ts_str pf sm)) ?p")
      case (Inl x)
      then have "on_files (shutil_copy2 s (d @ ''--'' @ ts_str pf sm)) ?p = Inl (e, st')"
        using assms False Some by (simp add: older_branch_def hash_known_def)
      from on_files_ledger [OF disjI2, OF this, of q] show ?thesis by simp
    next
      case (Inr st1)
      from on_files_ledger [OF disjI1, OF Inr, of q] have l1: "ledger st1 q = ledger st q" by simp
      have "append_hash d sh st1 = Inr st' \<or> append_hash d sh st1 = Inl (e, st')"
        using assms False Some Inr by (simp add: older_branch_def hash_known_def)
      from append_hash_grows [OF this, of q] l1 show ?thesis by simp
    qed
  qed
qed

lemma merge_file_grows:
  assumes "merge_file pf s d st = Inr st' \<or> merge_file pf s d st = Inl (e, st')"
  shows "set (ledger st q) \<subseteq> set (ledger st' q)"
proof (cases "os_path_exists (files st) d")
  case False
  show ?thesis
  proof (cases "on_files (shutil_copy2 s d) st")
    case (Inl x)
    then have "on_files (shutil_copy2 s d) st = Inl (e, st')"
      using assms False by (simp add: merge_file_def)
    from on_files_ledger [OF disjI2, OF this, of q] show ?thesis by simp
  next
    case (Inr st1)
    from on_files_ledger [OF disjI1, OF Inr, of q] have l1: "ledger st1 q = ledger st q" by simp
    have "(\<exists>h. assure_dest_hash pf d st1 = Inr (h, st')) \<or> assure_dest_hash pf d st1 = Inl (e, st')"
      using assms False Inr by (auto simp: merge_file_def split: sum.splits prod.splits)
    then show ?thesis using assure_dest_hash_grows [of pf d st1 _ st' e q] l1 by auto
  qed
next
  case True
  show ?thesis
  proof (cases "os_stat_mtime (files st) s")
    case (Inl x)
    then show ?thesis using assms True by (auto simp: merge_file_def)
  next
    case sm: (Inr s_mod)
    show ?thesis
    proof (cases "os_stat_mtime (files st) d")
      case (Inl x)
      then show ?thesis using assms True sm by (auto simp: merge_file_def)
    next
      case dm: (Inr d_mod)
      show ?thesis
      proof (cases "read_bytes (files st) s")
        case (Inl x)
        then show ?thesis using assms True sm dm by (auto simp: merge_file_def)
      next
        case rb: (Inr bytes)
        show ?thesis
        proof (cases "assure_dest_hash pf d st")
          case (Inl x)
          then have "assure_dest_hash pf d st = Inl (e, st')"
            using assms True sm dm rb by (auto simp: merge_file_def)
          from assure_dest_hash_grows [OF disjI2, OF this, of q] show ?thesis by simp
        next
          case (Inr y)
          obtain d_hash st1 where y: "y = (d_hash, st1)" by (cases y)
          from assure_dest_hash_grows [OF disjI1, of pf d st d_hash st1 q] Inr y
          have l1: "set (ledger st q) \<subseteq> set (ledger st1 q)" by simp
          consider (newer) "s_mod > d_mod" | (older) "\<not> s_mod > d_mod" "s_mod \<noteq> d_mod" | (equal) "s_mod = d_mod"
            by linarith
          then show ?thesis
          proof cases
            case newer
            then have "newer_branch pf s d s_mod d_mod (md5_hexdigest pf bytes) d_hash st1 = Inr st'
                \<or> newer_branch pf s d s_mod d_mod (md5_hexdigest pf bytes) d_hash st1 = Inl (e, st')"
              using assms True sm dm rb Inr y by (simp add: merge_file_def)
            from newer_branch_grows [OF this, of q] l1 show ?thesis by auto
          next
            case older
            then have "older_branch pf s d s_mod (md5_hexdigest pf bytes) st1 = Inr st'
                \<or> older_branch pf s d s_mod (md5_hexdigest pf bytes) st1 = Inl (e, st')"
              using assms True sm dm rb Inr y by (simp add: merge_file_def)
            from older_branch_grows [OF this, of q] l1 show ?thesis by auto
          next
            case equal
            then have "st' = st1"
              using assms True sm dm rb Inr y by (simp add: merge_file_def)
            with l1 show ?thesis by simp
          qed
        qed
      qed
    qed
  qed
qed

lemma run_step_grows:
  assumes "run_step pf st st'"
  shows "set (ledger st q) \<subseteq> set (ledger st' q)"
  using assms
proof cases
  case (printed line)
  then show ?thesis by simp
next
  case (made_dir p)
  from on_files_ledger [OF disjI1, OF this, of q] show ?thesis by simp
next
  case (merged s d)
  from merge_file_grows [OF disjI1, OF this] show ?thesis .
next
  case (raised s d e)
  from merge_file_grows [OF disjI2, OF this] show ?thesis .
qed

lemma run_steps_grows:
  assumes "run_steps pf st st'"
  shows "set (ledger st q) \<subseteq> set (ledger st' q)"
  using assms unfolding run_steps_def
proof (induction rule: rtranclp_induct)
  case base
  show ?case by simp
next
  case (step y z)
  from run_step_grows [OF step.hyps(2), of q] step.IH show ?case by blast
qed

subsection \<open>Auxiliary facts: a run is a sequence of steps\<close>

lemma run_steps_refl: "run_steps pf st st"
  by (simp add: run_steps_def)

lemma run_steps_step: "run_steps pf st st1 \<Longrightarrow> run_step pf st1 st2 \<Longrightarrow> run_steps pf st st2"
  by (simp add: run_steps_def)

lemma run_steps_trans: "run_steps pf st st1 \<Longrightarrow> run_steps pf st1 st2 \<Longrightarrow> run_steps pf st st2"
  by (simp add: run_steps_def)

lemma on_files_Inl: "on_files f st = Inl (e, st') \<Longrightarrow> st' = st"
  by (auto simp: on_files_def split: sum.splits)

lemma recurse_dir_walk_run_steps:
  "run_steps pf st (state_of (recurse_dir pf a n source_dir sub_dir st))"
  "run_steps pf st (state_of (walk pf a n source_dir sub_dir names st))"
proof (induction pf a n source_dir sub_dir st and pf a n source_dir sub_dir names st
    rule: recurse_dir_walk.induct)
  case (1 pf a source_dir sub_dir st)
  show ?case by (simp add: state_of_def run_steps_refl)
next
  case (2 pf a n source_dir sub_dir st)
  let ?dest = "case sub_dir of None \<Rightarrow> destination a | Some sd \<Rightarrow> sep_join (destination a) sd"
  let ?source = "case sub_dir of None \<Rightarrow> source_dir | Some sd \<Rightarrow> sep_join source_dir sd"
  let ?mk = "if \<not> os_path_isdir (files st) ?dest then on_files (os_mkdir ?dest) st else Inr st"
  show ?case
  proof (cases ?mk)
    case (Inl x)
    obtain e st' where x: "x = (e, st')" by (cases x)
    have "st' = st" using Inl x on_files_Inl [of "os_mkdir ?dest" st e st']
      by (auto split: if_splits)
    then show ?thesis using Inl x by (simp add: state_of_def run_steps_refl Let_def)
  next
    case (Inr st1)
    have step1: "run_steps pf st st1"
    proof (cases "os_path_isdir (files st) ?dest")
      case True
      then show ?thesis using Inr by (simp add: run_steps_refl)
    next
      case False
      then have "on_files (os_mkdir ?dest) st = Inr st1" using Inr by simp
      then have "run_step pf st st1" by (rule run_step.made_dir)
      then show ?thesis using run_steps_step [OF run_steps_refl] by blast
    qed
    show ?thesis
    proof (cases "os_listdir (files st1) ?source")
      case (Inl e)
      then show ?thesis using Inr step1 by (simp add: state_of_def Let_def)
    next
      case names: (Inr names)
      have w: "run_steps pf st1 (state_of (walk pf a n source_dir sub_dir names st1))"
        using "2.IH" [OF refl refl Inr names] .
      have eq: "recurse_dir pf a (Suc n) source_dir sub_dir st = walk pf a n source_dir sub_dir names st1"
        using Inr names by (simp add: Let_def)
      show ?thesis unfolding eq by (rule run_steps_trans [OF step1 w])
    qed
  qed
next
  case (3 pf a n source_dir sub_dir st)
  show ?case by (simp add: state_of_def run_steps_refl)
next
  case (4 pf a n source_dir sub_dir f rest st)
  let ?dest = "case sub_dir of None \<Rightarrow> destination a | Some sd \<Rightarrow> sep_join (destination a) sd"
  let ?source = "case sub_dir of None \<Rightarrow> source_dir | Some sd \<Rightarrow> sep_join source_dir sd"
  let ?sub = "Some (case sub_dir of None \<Rightarrow> f | Some sd \<Rightarrow> sep_join sd f)"
  let ?body = "if os_path_isdir (files st) (sep_join ?source f)
               then recurse_dir pf a n source_dir ?sub st
               else merge_file pf (sep_join ?source f) (sep_join ?dest f) st"
  have body: "run_steps pf st (state_of ?body)"
  proof (cases "os_path_isdir (files st) (sep_join ?source f)")
    case True
    then show ?thesis using "4.IH"(1) [OF refl refl True] by simp
  next
    case False
    show ?thesis
    proof (cases "merge_file pf (sep_join ?source f) (sep_join ?dest f) st")
      case (Inl x)
      obtain e st' where x: "x = (e, st')" by (cases x)
      have "run_step pf st st'" using Inl x run_step.raised by blast
      then show ?thesis using False Inl x run_steps_step [OF run_steps_refl]
        by (simp add: state_of_def)
    next
      case (Inr st')
      have "run_step pf st st'" using Inr run_step.merged by blast
      then show ?thesis using False Inr run_steps_step [OF run_steps_refl]
        by (simp add: state_of_def)
    qed
  qed
  show ?case
  proof (cases ?body)
    case (Inl x)
    then have "walk pf a n source_dir sub_dir (f # rest) st = Inl x"
      by (simp add: Let_def)
    then show ?thesis using body Inl by (simp add: state_of_def)
  next
    case (Inr st1)
    have w: "run_steps pf st1 (state_of (walk pf a n source_dir sub_dir rest st1))"
      using "4.IH"(2) [OF refl refl Inr] .
    have eq: "walk pf a n source_dir sub_dir (f # rest) st = walk pf a n source_dir sub_dir rest st1"
      using Inr by (simp add: Let_def)
    have s1: "run_steps pf st st1" using body Inr by (simp add: state_of_def)
    show ?thesis unfolding eq by (rule run_steps_trans [OF s1 w])
  qed
qed

lemma print_run_step: "run_step pf st (print l st)"
  by (rule run_step.printed)

lemma merge_sources_run_steps:
  "run_steps pf st (state_of (merge_sources pf a limit srcs st))"
proof (induction srcs arbitrary: st)
  case Nil
  show ?case by (simp add: state_of_def run_steps_refl)
next
  case (Cons src rest)
  let ?p = "print (''####### Processing source '' @ src @ '' #######'') st"
  have p: "run_steps pf st ?p"
    using run_steps_step [OF run_steps_refl print_run_step] .
  have r: "run_steps pf ?p (state_of (recurse_dir pf a limit src None ?p))"
    by (rule recurse_dir_walk_run_steps)
  show ?case
  proof (cases "recurse_dir pf a limit src None ?p")
    case (Inl x)
    then have eq: "merge_sources pf a limit (src # rest) st = recurse_dir pf a limit src None ?p"
      by simp
    show ?thesis unfolding eq by (rule run_steps_trans [OF p r])
  next
    case (Inr st1)
    have w: "run_steps pf st1 (state_of (merge_sources pf a limit rest st1))"
      by (rule Cons.IH)
    have "state_of (recurse_dir pf a limit src None ?p) = st1"
      using Inr by (simp add: state_of_def)
    then have s1: "run_steps pf st st1" using run_steps_trans [OF p r] by simp
    have eq: "merge_sources pf a limit (src # rest) st = merge_sources pf a limit rest st1"
      using Inr by simp
    show ?thesis unfolding eq by (rule run_steps_trans [OF s1 w])
  qed
qed

lemma returned_state_of: "returned r \<Longrightarrow> r = Inr (state_of r)"
  by (cases r) (simp_all add: returned_def state_of_def)

lemma older_branch_records:
  assumes "older_branch pf s d sm h st = Inr st'"
  shows "h \<in> set (ledger st' d)"
  using assms
  by (auto simp: older_branch_def hash_known_def append_hash_def ledger_def on_files_def print_def
      split: option.splits sum.splits if_splits bool.splits)

lemma shutil_copy2_Inr:
  assumes "shutil_copy2 src dst fs = Inr fs'"
  shows "\<exists>f. map_of fs src = Some (File f) \<and>
           (if os_path_isdir fs dst then sep_join dst (basename src) else dst) \<noteq> src \<and>
           map_of fs (if os_path_isdir fs dst then sep_join dst (basename src) else dst) \<noteq> Some Dir \<and>
           fs' = AList.update (if os_path_isdir fs dst then sep_join dst (basename src) else dst) (File f) fs"
  using assms
  by (auto simp: shutil_copy2_def os_path_exists_def Let_def split: option.splits node.splits if_splits)

lemma older_branch_files:
  assumes "older_branch pf s d sm h st = Inr st'"
  shows "\<exists>t. \<forall>p. p \<noteq> t \<longrightarrow> map_of (files st') p = map_of (files st) p"
proof (cases "files st' = files st")
  case True
  then show ?thesis by simp
next
  case False
  let ?p = "print (s @ ''; older but different; saving'') st"
  from assms False obtain st1 where cp: "on_files (shutil_copy2 s (d @ ''--'' @ ts_str pf sm)) ?p = Inr st1"
    and ap: "append_hash d h st1 = Inr st'"
    by (auto simp: older_branch_def hash_known_def split: option.splits sum.splits if_splits bool.splits)
  from ap have f1: "files st' = files st1"
    by (auto simp: append_hash_def split: option.splits)
  from on_files_Inr [OF cp] have "shutil_copy2 s (d @ ''--'' @ ts_str pf sm) (files st) = Inr (files st1)"
    by (simp add: print_def)
  from shutil_copy2_Inr [OF this] obtain f r where "files st1 = AList.update r (File f) (files st)"
    by blast
  with f1 have "\<forall>p. p \<noteq> r \<longrightarrow> map_of (files st') p = map_of (files st) p"
    by (simp add: update_conv')
  then show ?thesis by blast
qed

lemma shutil_move_Inr:
  assumes "shutil_move src dst fs = Inr fs'" and "src \<noteq> dst" and "map_of fs src = Some n"
  shows "\<exists>r. r \<noteq> src \<and> (r = dst \<or> map_of fs r = None) \<and>
           fs' = AList.update r n (AList.delete src fs)"
proof (cases "os_path_isdir fs dst")
  case True
  let ?r = "sep_join dst (basename src)"
  have free: "\<not> os_path_exists fs ?r"
    using assms(1,2) True by (simp add: shutil_move_def split: if_splits)
  have rn: "os_rename src ?r fs = Inr fs'"
    using assms(1,2) True free by (simp add: shutil_move_def)
  from free have none: "map_of fs ?r = None" by (simp add: os_path_exists_def)
  have ne: "?r \<noteq> src"
  proof
    assume "?r = src"
    then have "map_of fs ?r = map_of fs src" by (rule arg_cong)
    with none assms(3) show False by simp
  qed
  have "fs' = AList.update ?r n (AList.delete src fs)"
    using rn assms(3) ne none by (simp add: os_rename_def)
  with ne none have "?r \<noteq> src \<and> (?r = dst \<or> map_of fs ?r = None) \<and>
      fs' = AList.update ?r n (AList.delete src fs)" by simp
  then show ?thesis by (rule exI)
next
  case False
  with assms have rn: "os_rename src dst fs = Inr fs'" by (simp add: shutil_move_def)
  have nd: "map_of fs dst \<noteq> Some Dir" using False by (simp add: os_path_isdir_def)
  have "fs' = AList.update dst n (AList.delete src fs)"
  proof (cases "map_of fs dst")
    case None
    then show ?thesis using rn assms(2,3) by (simp add: os_rename_def)
  next
    case (Some m)
    then obtain f where "m = File f" using nd by (cases m) auto
    then show ?thesis using rn assms(2,3) Some by (simp add: os_rename_def)
  qed
  with assms(2) have "dst \<noteq> src \<and> (dst = dst \<or> map_of fs dst = None) \<and>
      fs' = AList.update dst n (AList.delete src fs)" by simp
  then show ?thesis by (rule exI)
qed

lemma shutil_copy2_again:
  assumes "shutil_copy2 src dst fs = Inr fs'"
  shows "shutil_copy2 src dst fs' = Inr fs'"
proof -
  let ?r = "if os_path_isdir fs dst then sep_join dst (basename src) else dst"
  from shutil_copy2_Inr [OF assms] obtain f where
    src: "map_of fs src = Some (File f)" and ne: "?r \<noteq> src"
    and nd: "map_of fs ?r \<noteq> Some Dir" and fs': "fs' = AList.update ?r (File f) fs"
    by blast
  have same_dir: "os_path_isdir fs' dst = os_path_isdir fs dst"
    using fs' by (auto simp: os_path_isdir_def update_conv' sep_join_def)
  have src': "map_of fs' src = Some (File f)" using src ne fs' by (simp add: update_conv')
  have r': "map_of fs' ?r = Some (File f)" using fs' by (simp add: update_conv')
  have "AList.update ?r (File f) fs' = fs'" using fs' by simp
  then show ?thesis
    using same_dir src' r' ne
    by (simp add: shutil_copy2_def Let_def os_path_exists_def)
qed

lemma merge_file_Inr_exists:
  assumes "merge_file pf s d st = Inr st'" and "os_path_exists (files st) d"
  shows "\<exists>fs fd. map_of (files st) s = Some (File fs) \<and> map_of (files st) d = Some (File fd)"
proof -
  from assms obtain bytes where rs: "read_bytes (files st) s = Inr bytes"
    by (auto simp: merge_file_def split: sum.splits)
  from assms obtain y where ad: "assure_dest_hash pf d st = Inr y"
    by (auto simp: merge_file_def split: sum.splits)
  from rs obtain fs where s: "map_of (files st) s = Some (File fs)"
    by (auto simp: read_bytes_def split: option.splits node.splits)
  from ad obtain b where "read_bytes (files st) d = Inr b"
    by (auto simp: assure_dest_hash_def Let_def split: sum.splits if_splits)
  then obtain fd where "map_of (files st) d = Some (File fd)"
    by (auto simp: read_bytes_def split: option.splits node.splits)
  with s show ?thesis by blast
qed

lemma merge_file_Inr_absent:
  assumes "merge_file pf s d st = Inr st'" and "\<not> os_path_exists (files st) d"
  shows "\<exists>f. map_of (files st) s = Some (File f) \<and> s \<noteq> d \<and>
           files st' = AList.update d (File f) (files st)"
proof -
  from assms obtain st1 h where cp: "on_files (shutil_copy2 s d) st = Inr st1"
    and ad: "assure_dest_hash pf d st1 = Inr (h, st')"
    by (auto simp: merge_file_def split: sum.splits prod.splits)
  from assure_dest_hash_grows [OF disjI1, OF ad] have f1: "files st' = files st1" by simp
  have nd: "\<not> os_path_isdir (files st) d"
    using assms(2) by (simp add: os_path_exists_def os_path_isdir_def)
  from shutil_copy2_Inr [OF on_files_Inr [OF cp]] nd f1 show ?thesis by auto
qed

lemma suffix_neq_self: "d @ ''--'' @ x \<noteq> d" "sep_join (d @ ''--'' @ x) b \<noteq> d"
  by (simp_all add: sep_join_def)

lemma exit_status_simps [simp]:
  "exit_status Completed = 0" "exit_status (SysExit (- 1)) = 255" "exit_status (Uncaught e) = 1"
  by (simp_all add: exit_status_def)

lemma main_bad_source:
  assumes "find (\<lambda>src. \<not> os_path_isdir (files st) src) (source a) = Some bad"
  shows "main pf limit a st =
           (SysExit (- 1), print (''ERROR: source path '' @ bad @ '' does not exist'') st)"
  using assms by (simp add: main_def)

lemma main_uncaught:
  assumes "find (\<lambda>src. \<not> os_path_isdir (files st) src) (source a) = None"
    and "merge_sources pf a limit (source a) st = Inl (e, st')"
  shows "main pf limit a st = (Uncaught e, st')"
  using assms by (simp add: main_def)

lemma main_completed:
  assumes "find (\<lambda>src. \<not> os_path_isdir (files st) src) (source a) = None"
    and "merge_sources pf a limit (source a) st = Inr st'"
  shows "main pf limit a st = (Completed, print ''Run complete'' st')"
  using assms by (simp add: main_def)

lemma exit_status_main:
  "exit_status (fst (main pf limit a st)) = 0 \<longleftrightarrow>
     find (\<lambda>src. \<not> os_path_isdir (files st) src) (source a) = None \<and>
     returned (merge_sources pf a limit (source a) st)"
proof (cases "find (\<lambda>src. \<not> os_path_isdir (files st) src) (source a)")
  case (Some bad)
  then show ?thesis by (simp add: main_bad_source)
next
  case None
  show ?thesis
  proof (cases "merge_sources pf a limit (source a) st")
    case (Inl x)
    obtain e st' where "x = (e, st')" by (cases x)
    with Inl None show ?thesis by (simp add: main_uncaught returned_def)
  next
    case (Inr st')
    with None show ?thesis by (simp add: main_completed returned_def)
  qed
qed

lemma os_mkdir_Inl:
  assumes "os_mkdir p fs = Inl e"
  shows "e = FileExistsError p \<or> e = FileNotFoundError p \<or> e = NotADirectoryError p"
  using assms by (auto simp: os_mkdir_def split: if_splits option.splits node.splits)

lemma recurse_dir_mkdir_fails:
  assumes "\<not> os_path_isdir (files st) (case sub_dir of None \<Rightarrow> destination a | Some sd \<Rightarrow> sep_join (destination a) sd)"
    and "os_mkdir (case sub_dir of None \<Rightarrow> destination a | Some sd \<Rightarrow> sep_join (destination a) sd) (files st) = Inl e"
  shows "recurse_dir pf a (Suc n) source_dir sub_dir st = Inl (e, st)"
  using assms by (simp add: on_files_def Let_def)

lemma os_mkdir_on_file:
  assumes "map_of fs p = Some (File f)"
  shows "\<not> os_path_isdir fs p" "os_mkdir p fs = Inl (FileExistsError p)"
  using assms by (simp_all add: os_path_isdir_def os_mkdir_def os_path_exists_def)

lemma merge_sources_first_raises:
  assumes "recurse_dir pf a limit src None (print (''####### Processing source '' @ src @ '' #######'') st) = Inl x"
  shows "merge_sources pf a limit (src # rest) st = Inl x"
  using assms by simp

lemma main_bad_destination:
  assumes ok: "find (\<lambda>src. \<not> os_path_isdir (files st) src) (source a) = None"
    and some: "source a = src # rest"
    and nd: "\<not> os_path_isdir (files st) (destination a)"
    and mk: "os_mkdir (destination a) (files st) = Inl e"
  shows "main pf limit a st =
           (Uncaught (if limit = 0 then RecursionError else e),
            print (''####### Processing source '' @ src @ '' #######'') st)"
proof (cases limit)
  case 0
  then have "merge_sources pf a limit (source a) st =
      Inl (RecursionError, print (''####### Processing source '' @ src @ '' #######'') st)"
    using some by simp
  from main_uncaught [OF ok this] 0 show ?thesis by simp
next
  case (Suc n)
  let ?p = "print (''####### Processing source '' @ src @ '' #######'') st"
  have "recurse_dir pf a (Suc n) src None ?p = Inl (e, ?p)"
    using nd mk by (intro recurse_dir_mkdir_fails) (simp_all add: print_def)
  then have "merge_sources pf a limit (source a) st = Inl (e, ?p)"
    using some Suc by simp
  from main_uncaught [OF ok this] Suc show ?thesis by simp
qed

lemma walk_append:
  assumes "walk pf a n source_dir sub_dir pre st0 = Inr st"
  shows "walk pf a n source_dir sub_dir (pre @ later) st0 = walk pf a n source_dir sub_dir later st"
  using assms
proof (induction pre arbitrary: st0)
  case Nil
  then show ?case by simp
next
  case (Cons f pre)
  let ?dest = "case sub_dir of None \<Rightarrow> destination a | Some sd \<Rightarrow> sep_join (destination a) sd"
  let ?source = "case sub_dir of None \<Rightarrow> source_dir | Some sd \<Rightarrow> sep_join source_dir sd"
  let ?body = "if os_path_isdir (files st0) (sep_join ?source f)
               then recurse_dir pf a n source_dir (Some (case sub_dir of None \<Rightarrow> f | Some sd \<Rightarrow> sep_join sd f)) st0
               else merge_file pf (sep_join ?source f) (sep_join ?dest f) st0"
  show ?case
  proof (cases ?body)
    case (Inl x)
    then have "walk pf a n source_dir sub_dir (f # pre) st0 = Inl x" by (simp add: Let_def)
    with Cons.prems show ?thesis by simp
  next
    case (Inr st1)
    then have w: "walk pf a n source_dir sub_dir (f # pre) st0 = walk pf a n source_dir sub_dir pre st1"
      by (simp add: Let_def)
    have w': "walk pf a n source_dir sub_dir ((f # pre) @ later) st0 = walk pf a n source_dir sub_dir (pre @ later) st1"
      using Inr by (simp add: Let_def)
    from Cons.prems w have "walk pf a n source_dir sub_dir pre st1 = Inr st" by simp
    from Cons.IH [OF this] w' show ?thesis by simp
  qed
qed

lemma merge_file_onto_dir:
  assumes s: "map_of (files st) s = Some (File g)" and d: "map_of (files st) d = Some Dir"
  shows "\<exists>st'. merge_file pf s d st = Inl (IsADirectoryError d, st') \<and> files st' = files st \<and> stdout st' = stdout st"
proof -
  from assure_dest_hash_dir [OF d, of pf] obtain st' where
    a: "assure_dest_hash pf d st = Inl (IsADirectoryError d, st')"
    and f: "files st' = files st" "stdout st' = stdout st" by auto
  have "merge_file pf s d st = Inl (IsADirectoryError d, st')"
    using s d a by (simp add: merge_file_def os_path_exists_def os_stat_mtime_def read_bytes_def)
  with f show ?thesis by simp
qed

lemma dest_path_sub:
  "dest_path a (Some (case sub_dir of None \<Rightarrow> f | Some sd \<Rightarrow> sep_join sd f)) = sep_join (dest_path a sub_dir) f"
  by (cases sub_dir) (simp_all add: dest_path_def sep_join_def)

lemma recurse_dir_onto_file:
  assumes "map_of (files st) (dest_path a sub_dir) = Some (File g)"
  shows "recurse_dir pf a (Suc n) source_dir sub_dir st = Inl (FileExistsError (dest_path a sub_dir), st)"
  using os_mkdir_on_file [OF assms] unfolding dest_path_def
  by (intro recurse_dir_mkdir_fails)

lemma walk_dir_onto_file:
  assumes "os_path_isdir (files st) (sep_join (source_path source_dir sub_dir) f)"
    and "map_of (files st) (sep_join (dest_path a sub_dir) f) = Some (File g)"
  shows "walk pf a (Suc n) source_dir sub_dir (f # rest) st =
           Inl (FileExistsError (sep_join (dest_path a sub_dir) f), st)"
proof -
  let ?sub = "Some (case sub_dir of None \<Rightarrow> f | Some sd \<Rightarrow> sep_join sd f)"
  have "map_of (files st) (dest_path a ?sub) = Some (File g)"
    using assms(2) by (simp add: dest_path_sub)
  from recurse_dir_onto_file [OF this, of pf n source_dir]
  have "recurse_dir pf a (Suc n) source_dir ?sub st = Inl (FileExistsError (sep_join (dest_path a sub_dir) f), st)"
    by (simp add: dest_path_sub)
  then show ?thesis using assms(1) by (simp add: source_path_def Let_def)
qed

lemma walk_file_onto_dir:
  assumes "map_of (files st) (sep_join (source_path source_dir sub_dir) f) = Some (File g)"
    and "map_of (files st) (sep_join (dest_path a sub_dir) f) = Some Dir"
  shows "\<exists>st'. walk pf a n source_dir sub_dir (f # rest) st =
           Inl (IsADirectoryError (sep_join (dest_path a sub_dir) f), st') \<and>
         files st' = files st \<and> stdout st' = stdout st"
proof -
  from merge_file_onto_dir [OF assms, of pf] obtain st' where
    m: "merge_file pf (sep_join (source_path source_dir sub_dir) f) (sep_join (dest_path a sub_dir) f) st =
          Inl (IsADirectoryError (sep_join (dest_path a sub_dir) f), st')"
    and f: "files st' = files st" "stdout st' = stdout st" by auto
  have nd: "\<not> os_path_isdir (files st) (sep_join (source_path source_dir sub_dir) f)"
    using assms(1) by (simp add: os_path_isdir_def)
  have "walk pf a n source_dir sub_dir (f # rest) st =
          Inl (IsADirectoryError (sep_join (dest_path a sub_dir) f), st')"
    using m nd unfolding source_path_def dest_path_def by (simp add: Let_def)
  with f show ?thesis by simp
qed

lemma recurse_dir_walk_raises:
  assumes "os_path_isdir (files st) (dest_path a sub_dir)"
    and "os_listdir (files st) (source_path source_dir sub_dir) = Inr names"
    and "walk pf a n source_dir sub_dir names st = Inl x"
  shows "recurse_dir pf a (Suc n) source_dir sub_dir st = Inl x"
  using assms unfolding source_path_def dest_path_def by (simp add: Let_def)

lemma walk_recurse_dir_raises:
  assumes "os_path_isdir (files st) (sep_join (source_path source_dir sub_dir) f)"
    and "recurse_dir pf a n source_dir (Some (case sub_dir of None \<Rightarrow> f | Some sd \<Rightarrow> sep_join sd f)) st = Inl x"
  shows "walk pf a n source_dir sub_dir (f # rest) st = Inl x"
  using assms unfolding source_path_def by (simp add: Let_def)

subsection \<open>Auxiliary facts: recorded digests stay backed by files\<close>




lemma keeps_trans: "keeps pf fs fs1 \<Longrightarrow> keeps pf fs1 fs2 \<Longrightarrow> keeps pf fs fs2"
  by (simp add: keeps_def)








































section \<open>The claims\<close>

subsection \<open>C1: a newer source file with the same content\<close>

text \<open>
  Claim C1: when source and destination have identical content and the source is strictly
  newer, the destination stays as it is, the source's modification time becomes the
  destination's, and nothing is created, renamed or copied.

  The script calls \<^verbatim>\<open>os.utime\<close> on the source with \<^verbatim>\<open>(s_mod, s_mod)\<close>: the
  source keeps its own modification time (lemma \<open>newer_identical\<close>), although the
  branch prints that it is updating the modified date. The run below has the destination
  file at time 10 and the source file at time 20, both with content \<^verbatim>\<open>A\<close>: after the
  run the source file's time is still 20, not 10. The rest of the claim holds there: the
  file system is what it was.
\<close>

theorem newer_identical_source_time_stays:
  "fst (main sample_platform 100 sample_args (start (sample_tree ''A'' 10 ''A'' 20))) = Completed \<and>
   os_stat_mtime (files (snd (main sample_platform 100 sample_args
      (start (sample_tree ''A'' 10 ''A'' 20))))) ''src/f'' = Inr 20 \<and>
   os_stat_mtime (files (snd (main sample_platform 100 sample_args
      (start (sample_tree ''A'' 10 ''A'' 20))))) ''dst/f'' = Inr 10 \<and>
   files (snd (main sample_platform 100 sample_args (start (sample_tree ''A'' 10 ''A'' 20)))) =
     sample_tree ''A'' 10 ''A'' 20 \<and>
   stdout (snd (main sample_platform 100 sample_args (start (sample_tree ''A'' 10 ''A'' 20)))) =
     [''####### Processing source src #######'',
      ''src/f; newer but identical; updating modified date'', ''Run complete'']"
  by code_simp

subsection \<open>C3: equal modification times\<close>

text \<open>
  Claim C3: when the two modification times are equal, reconciliation does nothing, and
  in particular computes no hash and neither creates nor changes the entry of the
  destination path in \<^verbatim>\<open>dest_hashes\<close>.

  The script reads and hashes both files before it compares the times, so the entry is
  created. Counterexample: in a fresh process, with equal times, the entry of
  \<^verbatim>\<open>dst/f\<close> goes from absent to the list holding the destination's digest.
\<close>

theorem equal_times_ledger_counterexample:
  "dest_hashes (start (sample_tree ''A'' 10 ''B'' 10)) ''dst/f'' = None \<and>
   returned (merge_file sample_platform ''src/f'' ''dst/f'' (start (sample_tree ''A'' 10 ''B'' 10))) \<and>
   dest_hashes (state_of (merge_file sample_platform ''src/f'' ''dst/f''
      (start (sample_tree ''A'' 10 ''B'' 10)))) ''dst/f'' = Some [''A'']"
  by code_simp

text \<open>
  Claim C3 as amended: when source and destination are regular files with equal
  modification times, the merge of the file returns, leaves the file system and the
  console as they were (no copy, no rename, no time changed, nothing printed), and
  changes \<^verbatim>\<open>dest_hashes\<close> only at the destination path, whose entry now holds the
  digest of the destination file (added at the end unless it was there).
\<close>

theorem equal_times_touch_only_ledger:
  assumes "map_of (files st) s = Some (File fs)"
    and "map_of (files st) d = Some (File fd)"
    and "st_mtime fs = st_mtime fd"
  shows "\<exists>st'. merge_file pf s d st = Inr st' \<and> files st' = files st \<and> stdout st' = stdout st \<and>
           dest_hashes st' =
             (dest_hashes st)(d \<mapsto> record_hash (md5_hexdigest pf (content fd)) (ledger st d))"
  using assms by (simp add: equal_times)

theorem equal_times_touch_only_ledger_witness:
  "map_of (files (start (sample_tree ''A'' 10 ''B'' 10))) ''src/f'' =
     Some (File \<lparr>content = ''B'', st_atime = 10, st_mtime = 10\<rparr>) \<and>
   map_of (files (start (sample_tree ''A'' 10 ''B'' 10))) ''dst/f'' =
     Some (File \<lparr>content = ''A'', st_atime = 10, st_mtime = 10\<rparr>) \<and>
   (\<exists>st'. merge_file sample_platform ''src/f'' ''dst/f'' (start (sample_tree ''A'' 10 ''B'' 10)) = Inr st' \<and>
      files st' = sample_tree ''A'' 10 ''B'' 10 \<and> stdout st' = [] \<and>
      dest_hashes st' ''dst/f'' = Some [''A''])"
proof -
  let ?st = "start (sample_tree ''A'' 10 ''B'' 10)"
  let ?fs = "\<lparr>content = ''B'', st_atime = 10, st_mtime = 10\<rparr> :: regfile"
  let ?fd = "\<lparr>content = ''A'', st_atime = 10, st_mtime = 10\<rparr> :: regfile"
  have s: "map_of (files ?st) ''src/f'' = Some (File ?fs)"
    by (simp add: start_def sample_tree_def regular_def)
  have d: "map_of (files ?st) ''dst/f'' = Some (File ?fd)"
    by (simp add: start_def sample_tree_def regular_def)
  have e: "st_mtime ?fs = st_mtime ?fd" by simp
  from equal_times_touch_only_ledger [OF s d e, of sample_platform]
  obtain st' where "merge_file sample_platform ''src/f'' ''dst/f'' ?st = Inr st'"
    and "files st' = files ?st" and "stdout st' = stdout ?st"
    and "dest_hashes st' = (dest_hashes ?st)(''dst/f'' \<mapsto>
           record_hash (md5_hexdigest sample_platform (content ?fd)) (ledger ?st ''dst/f''))"
    by blast
  then have "merge_file sample_platform ''src/f'' ''dst/f'' ?st = Inr st' \<and>
      files st' = sample_tree ''A'' 10 ''B'' 10 \<and> stdout st' = [] \<and>
      dest_hashes st' ''dst/f'' = Some [''A'']"
    by (simp add: start_def sample_platform_def record_hash_def ledger_def)
  with s d show ?thesis by blast
qed

subsection \<open>C4: a newer source file with different content\<close>

text \<open>
  Claim C4: when the source file is strictly newer than the destination file and the
  contents differ, then after reconciliation the destination path holds the source's
  content and time, the sibling named by the destination path, \<^verbatim>\<open>--\<close> and the
  formatted old time holds the old content, and the source's digest is recorded for the
  destination path.

  \<^verbatim>\<open>shutil.move\<close> moves a file \<^emph>\<open>into\<close> a destination that is a directory.
  Counterexample: the destination tree already has a directory under the suffixed name;
  after reconciliation that name is still the directory, and the old content lies inside
  it under the name \<^verbatim>\<open>f\<close>.
\<close>

theorem newer_different_counterexample:
  "ts_str sample_platform 10 = ''1970-01-01--at--00-00-10'' \<and>
   returned (merge_file sample_platform ''src/f'' ''dst/f''
      (start (sample_tree ''A'' 10 ''B'' 20 @ [(''dst/f--1970-01-01--at--00-00-10'', Dir)]))) \<and>
   map_of (files (state_of (merge_file sample_platform ''src/f'' ''dst/f''
      (start (sample_tree ''A'' 10 ''B'' 20 @ [(''dst/f--1970-01-01--at--00-00-10'', Dir)])))))
      (''dst/f'' @ ''--'' @ ts_str sample_platform 10) = Some Dir \<and>
   map_of (files (state_of (merge_file sample_platform ''src/f'' ''dst/f''
      (start (sample_tree ''A'' 10 ''B'' 20 @ [(''dst/f--1970-01-01--at--00-00-10'', Dir)])))))
      ''dst/f--1970-01-01--at--00-00-10/f'' = Some (regular ''A'' 10)"
  by code_simp

text \<open>
  Claim C4 as amended: \<open>s\<close> and \<open>d\<close> are regular files with the same base name, \<open>s\<close>
  strictly newer, their digests different, and no directory has the suffixed name
  \<open>d @ ''--'' @ ts_str pf (st_mtime fd)\<close>. Then the merge of the file returns;
  afterwards \<open>d\<close> is the source file (its bytes and its times), the suffixed name is the
  old destination file, no other path has changed, the source's digest is recorded for
  \<open>d\<close>, the suffix is the \<^verbatim>\<open>strftime\<close> format of the local time of the old
  modification time, and the note is printed.
\<close>

theorem newer_different_save_and_copy:
  assumes "map_of (files st) s = Some (File fs)"
    and "map_of (files st) d = Some (File fd)"
    and "st_mtime fd < st_mtime fs"
    and "md5_hexdigest pf (content fs) \<noteq> md5_hexdigest pf (content fd)"
    and "basename s = basename d"
    and "\<not> os_path_isdir (files st) (d @ ''--'' @ ts_str pf (st_mtime fd))"
  shows "\<exists>st'. merge_file pf s d st = Inr st' \<and>
           map_of (files st') d = Some (File fs) \<and>
           map_of (files st') (d @ ''--'' @ ts_str pf (st_mtime fd)) = Some (File fd) \<and>
           (\<forall>p. p \<noteq> d \<and> p \<noteq> d @ ''--'' @ ts_str pf (st_mtime fd) \<longrightarrow>
                map_of (files st') p = map_of (files st) p) \<and>
           md5_hexdigest pf (content fs) \<in> set (ledger st' d) \<and>
           ts_str pf (st_mtime fd) = strftime (fromtimestamp pf (st_mtime fd)) \<and>
           stdout st' = stdout st @ [s @ ''; newer and different; save/copy'']"
  using newer_different [OF assms]
  by (simp add: update_conv' delete_conv' ledger_def ts_str_def)

theorem newer_different_save_and_copy_witness:
  "map_of (files (start (sample_tree ''A'' 10 ''B'' 20))) ''src/f'' =
     Some (File \<lparr>content = ''B'', st_atime = 20, st_mtime = 20\<rparr>) \<and>
   map_of (files (start (sample_tree ''A'' 10 ''B'' 20))) ''dst/f'' =
     Some (File \<lparr>content = ''A'', st_atime = 10, st_mtime = 10\<rparr>) \<and>
   (10 :: real) < 20 \<and> ''B'' \<noteq> ''A'' \<and> basename ''src/f'' = basename ''dst/f'' \<and>
   \<not> os_path_isdir (files (start (sample_tree ''A'' 10 ''B'' 20))) ''dst/f--1970-01-01--at--00-00-10'' \<and>
   (\<exists>st'. merge_file sample_platform ''src/f'' ''dst/f'' (start (sample_tree ''A'' 10 ''B'' 20)) = Inr st' \<and>
      map_of (files st') ''dst/f'' = Some (File \<lparr>content = ''B'', st_atime = 20, st_mtime = 20\<rparr>) \<and>
      map_of (files st') ''dst/f--1970-01-01--at--00-00-10'' =
        Some (File \<lparr>content = ''A'', st_atime = 10, st_mtime = 10\<rparr>) \<and>
      ''B'' \<in> set (ledger st' ''dst/f''))"
proof -
  let ?st = "start (sample_tree ''A'' 10 ''B'' 20)"
  let ?fs = "\<lparr>content = ''B'', st_atime = 20, st_mtime = 20\<rparr> :: regfile"
  let ?fd = "\<lparr>content = ''A'', st_atime = 10, st_mtime = 10\<rparr> :: regfile"
  have ts: "ts_str sample_platform 10 = ''1970-01-01--at--00-00-10''"
    by code_simp
  have s: "map_of (files ?st) ''src/f'' = Some (File ?fs)"
    by (simp add: start_def sample_tree_def regular_def)
  have d: "map_of (files ?st) ''dst/f'' = Some (File ?fd)"
    by (simp add: start_def sample_tree_def regular_def)
  have newer: "st_mtime ?fd < st_mtime ?fs" by simp
  have differ: "md5_hexdigest sample_platform (content ?fs) \<noteq> md5_hexdigest sample_platform (content ?fd)"
    by (simp add: md5_sample)
  have names: "basename ''src/f'' = basename ''dst/f''"
    by (simp add: basename_def)
  have free: "\<not> os_path_isdir (files ?st) (''dst/f'' @ ''--'' @ ts_str sample_platform (st_mtime ?fd))"
    by (simp add: ts os_path_isdir_def start_def sample_tree_def regular_def)
  from newer_different_save_and_copy [OF s d newer differ names free]
  have "\<exists>st'. merge_file sample_platform ''src/f'' ''dst/f'' ?st = Inr st' \<and>
      map_of (files st') ''dst/f'' = Some (File ?fs) \<and>
      map_of (files st') ''dst/f--1970-01-01--at--00-00-10'' = Some (File ?fd) \<and>
      ''B'' \<in> set (ledger st' ''dst/f'')"
    by (auto simp: ts md5_sample)
  with s d names free ts show ?thesis by simp
qed

subsection \<open>C5: an older source file with different content\<close>

text \<open>
  Claim C5: when the source file is strictly older than the destination file, the
  contents differ and the source's digest is not yet recorded for the destination path,
  then the destination stays as it is and a file named by the destination path,
  \<^verbatim>\<open>--\<close> and the formatted source time holds the source's content and time.

  \<^verbatim>\<open>shutil.copy2\<close> copies \<^emph>\<open>into\<close> a destination that is a directory.
  Counterexample: the destination tree already has a directory under the suffixed name;
  after reconciliation that name is still the directory, and the copy lies inside it.
\<close>

theorem older_different_counterexample:
  "ts_str sample_platform 10 = ''1970-01-01--at--00-00-10'' \<and>
   returned (merge_file sample_platform ''src/f'' ''dst/f''
      (start (sample_tree ''A'' 20 ''B'' 10 @ [(''dst/f--1970-01-01--at--00-00-10'', Dir)]))) \<and>
   map_of (files (state_of (merge_file sample_platform ''src/f'' ''dst/f''
      (start (sample_tree ''A'' 20 ''B'' 10 @ [(''dst/f--1970-01-01--at--00-00-10'', Dir)])))))
      (''dst/f'' @ ''--'' @ ts_str sample_platform 10) = Some Dir \<and>
   map_of (files (state_of (merge_file sample_platform ''src/f'' ''dst/f''
      (start (sample_tree ''A'' 20 ''B'' 10 @ [(''dst/f--1970-01-01--at--00-00-10'', Dir)])))))
      ''dst/f--1970-01-01--at--00-00-10/f'' = Some (regular ''B'' 10)"
  by code_simp

text \<open>
  Claim C5 as amended: \<open>s\<close> and \<open>d\<close> are regular files with the same base name, \<open>s\<close>
  strictly older, their digests different, the digest of \<open>s\<close> not recorded for \<open>d\<close>,
  and no directory has the suffixed name \<open>d @ ''--'' @ ts_str pf (st_mtime fs)\<close>. Then
  the merge of the file returns; afterwards \<open>d\<close> is unchanged, the suffixed name is the
  source file (its bytes and its times), no other path has changed, the source's digest
  is recorded for \<open>d\<close>, and the note is printed.
\<close>

theorem older_different_saved:
  assumes "map_of (files st) s = Some (File fs)"
    and "map_of (files st) d = Some (File fd)"
    and "st_mtime fs < st_mtime fd"
    and "md5_hexdigest pf (content fs) \<noteq> md5_hexdigest pf (content fd)"
    and "md5_hexdigest pf (content fs) \<notin> set (ledger st d)"
    and "basename s = basename d"
    and "\<not> os_path_isdir (files st) (d @ ''--'' @ ts_str pf (st_mtime fs))"
  shows "\<exists>st'. merge_file pf s d st = Inr st' \<and>
           map_of (files st') d = Some (File fd) \<and>
           map_of (files st') (d @ ''--'' @ ts_str pf (st_mtime fs)) = Some (File fs) \<and>
           (\<forall>p. p \<noteq> d @ ''--'' @ ts_str pf (st_mtime fs) \<longrightarrow>
                map_of (files st') p = map_of (files st) p) \<and>
           md5_hexdigest pf (content fs) \<in> set (ledger st' d) \<and>
           stdout st' = stdout st @ [s @ ''; older but different; saving'']"
  using older_different [OF assms] assms(2)
  by (simp add: update_conv' ledger_def)

theorem older_different_saved_witness:
  "map_of (files (start (sample_tree ''A'' 20 ''B'' 10))) ''src/f'' =
     Some (File \<lparr>content = ''B'', st_atime = 10, st_mtime = 10\<rparr>) \<and>
   map_of (files (start (sample_tree ''A'' 20 ''B'' 10))) ''dst/f'' =
     Some (File \<lparr>content = ''A'', st_atime = 20, st_mtime = 20\<rparr>) \<and>
   (10 :: real) < 20 \<and> ''B'' \<noteq> ''A'' \<and> ''B'' \<notin> set (ledger (start (sample_tree ''A'' 20 ''B'' 10)) ''dst/f'') \<and>
   basename ''src/f'' = basename ''dst/f'' \<and>
   \<not> os_path_isdir (files (start (sample_tree ''A'' 20 ''B'' 10))) ''dst/f--1970-01-01--at--00-00-10'' \<and>
   (\<exists>st'. merge_file sample_platform ''src/f'' ''dst/f'' (start (sample_tree ''A'' 20 ''B'' 10)) = Inr st' \<and>
      map_of (files st') ''dst/f'' = Some (File \<lparr>content = ''A'', st_atime = 20, st_mtime = 20\<rparr>) \<and>
      map_of (files st') ''dst/f--1970-01-01--at--00-00-10'' =
        Some (File \<lparr>content = ''B'', st_atime = 10, st_mtime = 10\<rparr>) \<and>
      ''B'' \<in> set (ledger st' ''dst/f''))"
proof -
  let ?st = "start (sample_tree ''A'' 20 ''B'' 10)"
  let ?fs = "\<lparr>content = ''B'', st_atime = 10, st_mtime = 10\<rparr> :: regfile"
  let ?fd = "\<lparr>content = ''A'', st_atime = 20, st_mtime = 20\<rparr> :: regfile"
  have ts: "ts_str sample_platform 10 = ''1970-01-01--at--00-00-10''"
    by code_simp
  have s: "map_of (files ?st) ''src/f'' = Some (File ?fs)"
    by (simp add: start_def sample_tree_def regular_def)
  have d: "map_of (files ?st) ''dst/f'' = Some (File ?fd)"
    by (simp add: start_def sample_tree_def regular_def)
  have older: "st_mtime ?fs < st_mtime ?fd" by simp
  have differ: "md5_hexdigest sample_platform (content ?fs) \<noteq> md5_hexdigest sample_platform (content ?fd)"
    by (simp add: md5_sample)
  have fresh: "md5_hexdigest sample_platform (content ?fs) \<notin> set (ledger ?st ''dst/f'')"
    by (simp add: ledger_def start_def)
  have names: "basename ''src/f'' = basename ''dst/f''"
    by (simp add: basename_def)
  have free: "\<not> os_path_isdir (files ?st) (''dst/f'' @ ''--'' @ ts_str sample_platform (st_mtime ?fs))"
    by (simp add: ts os_path_isdir_def start_def sample_tree_def regular_def)
  from older_different_saved [OF s d older differ fresh names free]
  have "\<exists>st'. merge_file sample_platform ''src/f'' ''dst/f'' ?st = Inr st' \<and>
      map_of (files st') ''dst/f'' = Some (File ?fd) \<and>
      map_of (files st') ''dst/f--1970-01-01--at--00-00-10'' = Some (File ?fs) \<and>
      ''B'' \<in> set (ledger st' ''dst/f'')"
    by (auto simp: ts md5_sample)
  with s d names free fresh ts show ?thesis by (simp add: md5_sample)
qed

subsection \<open>C6: the same content from two source roots\<close>

text \<open>
  Claim C6: when two source roots hold, at the same relative path, files with identical
  content whose modification times are both older than the destination file's, at most
  one timestamp-suffixed copy of that content is made over the whole run: the second
  occurrence is skipped because its digest is already recorded for the destination path.

  In the theorem \<open>st0\<close> is the state in which the first occurrence \<open>s1\<close> is merged
  and \<open>st2\<close> any state the run reaches later (lemmas \<open>recurse_dir_walk_run_steps\<close>
  and \<open>merge_sources_run_steps\<close>: whatever \<^verbatim>\<open>recurse_dir\<close> and the loop over the
  source roots do is a sequence of such steps). The merge of the first occurrence changes
  at most one path and leaves its digest recorded; the digest is still recorded in
  \<open>st2\<close>; and the merge of the second occurrence \<open>s2\<close> returns without changing the
  file system or printing. The two times need not even differ.
\<close>

theorem duplicate_not_saved_twice:
  assumes first: "merge_file pf s1 d st0 = Inr st1"
    and s1: "map_of (files st0) s1 = Some (File f1)"
    and d0: "map_of (files st0) d = Some (File fd0)"
    and older1: "st_mtime f1 < st_mtime fd0"
    and later: "run_steps pf st1 st2"
    and s2: "map_of (files st2) s2 = Some (File f2)"
    and same: "md5_hexdigest pf (content f2) = md5_hexdigest pf (content f1)"
    and d2: "map_of (files st2) d = Some (File fd2)"
    and older2: "st_mtime f2 < st_mtime fd2"
  shows "(\<exists>t. \<forall>p. p \<noteq> t \<longrightarrow> map_of (files st1) p = map_of (files st0) p) \<and>
         md5_hexdigest pf (content f1) \<in> set (ledger st1 d) \<and>
         md5_hexdigest pf (content f1) \<in> set (ledger st2 d) \<and>
         (\<exists>st3. merge_file pf s2 d st2 = Inr st3 \<and> files st3 = files st2 \<and> stdout st3 = stdout st2)"
proof -
  let ?h = "md5_hexdigest pf (content f1)"
  let ?st0 = "st0\<lparr>dest_hashes := (dest_hashes st0)(d \<mapsto> record_hash (md5_hexdigest pf (content fd0)) (ledger st0 d))\<rparr>"
  have ob: "older_branch pf s1 d (st_mtime f1) ?h ?st0 = Inr st1"
    using first older1 by (simp add: merge_file_conflict [OF s1 d0] Let_def)
  from older_branch_files [OF ob]
  have one: "\<exists>t. \<forall>p. p \<noteq> t \<longrightarrow> map_of (files st1) p = map_of (files st0) p" by simp
  have k1: "?h \<in> set (ledger st1 d)" using ob by (rule older_branch_records)
  have k2: "?h \<in> set (ledger st2 d)" using k1 run_steps_grows [OF later, of d] by blast
  have "md5_hexdigest pf (content f2) \<in> set (record_hash (md5_hexdigest pf (content fd2)) (ledger st2 d))"
    using k2 same by (simp add: record_hash_def)
  from older_known [OF s2 d2 older2 this]
  have "\<exists>st3. merge_file pf s2 d st2 = Inr st3 \<and> files st3 = files st2 \<and> stdout st3 = stdout st2"
    by simp
  with one k1 k2 show ?thesis by blast
qed

theorem duplicate_not_saved_twice_witness:
  "returned (merge_file sample_platform ''s1/f'' ''dst/f'' (start (two_source_tree ''A'' 30 ''B'' 10 ''B'' 20))) \<and>
   map_of (two_source_tree ''A'' 30 ''B'' 10 ''B'' 20) ''s1/f'' = Some (regular ''B'' 10) \<and>
   map_of (two_source_tree ''A'' 30 ''B'' 10 ''B'' 20) ''dst/f'' = Some (regular ''A'' 30) \<and>
   (10 :: real) < 30 \<and>
   run_steps sample_platform
     (state_of (merge_file sample_platform ''s1/f'' ''dst/f'' (start (two_source_tree ''A'' 30 ''B'' 10 ''B'' 20))))
     (print ''####### Processing source s2 #######''
       (state_of (merge_file sample_platform ''s1/f'' ''dst/f'' (start (two_source_tree ''A'' 30 ''B'' 10 ''B'' 20))))) \<and>
   map_of (files (print ''####### Processing source s2 #######''
       (state_of (merge_file sample_platform ''s1/f'' ''dst/f'' (start (two_source_tree ''A'' 30 ''B'' 10 ''B'' 20))))))
     ''s2/f'' = Some (regular ''B'' 20) \<and>
   map_of (files (print ''####### Processing source s2 #######''
       (state_of (merge_file sample_platform ''s1/f'' ''dst/f'' (start (two_source_tree ''A'' 30 ''B'' 10 ''B'' 20))))))
     ''dst/f'' = Some (regular ''A'' 30) \<and>
   (20 :: real) < 30 \<and>
   (\<exists>st3. merge_file sample_platform ''s2/f'' ''dst/f''
       (print ''####### Processing source s2 #######''
         (state_of (merge_file sample_platform ''s1/f'' ''dst/f'' (start (two_source_tree ''A'' 30 ''B'' 10 ''B'' 20))))) = Inr st3 \<and>
     files st3 = files (state_of (merge_file sample_platform ''s1/f'' ''dst/f'' (start (two_source_tree ''A'' 30 ''B'' 10 ''B'' 20)))) \<and>
     map_of (files st3) ''dst/f--1970-01-01--at--00-00-10'' = Some (regular ''B'' 10) \<and>
     map_of (files st3) ''dst/f--1970-01-01--at--00-00-20'' = None)"
proof -
  let ?st0 = "start (two_source_tree ''A'' 30 ''B'' 10 ''B'' 20)"
  let ?r = "merge_file sample_platform ''s1/f'' ''dst/f'' ?st0"
  let ?st1 = "state_of ?r"
  let ?st2 = "print ''####### Processing source s2 #######'' ?st1"
  let ?f1 = "\<lparr>content = ''B'', st_atime = 10, st_mtime = 10\<rparr> :: regfile"
  let ?f2 = "\<lparr>content = ''B'', st_atime = 20, st_mtime = 20\<rparr> :: regfile"
  let ?fd = "\<lparr>content = ''A'', st_atime = 30, st_mtime = 30\<rparr> :: regfile"
  have ret: "returned ?r" by code_simp
  have first: "?r = Inr ?st1" using ret by (rule returned_state_of)
  have s1: "map_of (files ?st0) ''s1/f'' = Some (File ?f1)"
    by (simp add: start_def two_source_tree_def regular_def)
  have d0: "map_of (files ?st0) ''dst/f'' = Some (File ?fd)"
    by (simp add: start_def two_source_tree_def regular_def)
  have older1: "st_mtime ?f1 < st_mtime ?fd" by simp
  have later: "run_steps sample_platform ?st1 ?st2"
    using run_steps_step [OF run_steps_refl print_run_step] .
  have s2: "map_of (files ?st2) ''s2/f'' = Some (File ?f2)"
    unfolding regular_def [symmetric] by code_simp
  have d2: "map_of (files ?st2) ''dst/f'' = Some (File ?fd)"
    unfolding regular_def [symmetric] by code_simp
  have same: "md5_hexdigest sample_platform (content ?f2) = md5_hexdigest sample_platform (content ?f1)"
    by simp
  have older2: "st_mtime ?f2 < st_mtime ?fd" by simp
  have a: "map_of (files ?st1) ''dst/f--1970-01-01--at--00-00-10'' = Some (regular ''B'' 10)"
    by code_simp
  have b: "map_of (files ?st1) ''dst/f--1970-01-01--at--00-00-20'' = None"
    by code_simp
  have f2: "files ?st2 = files ?st1" by (simp add: print_def)
  from duplicate_not_saved_twice [OF first s1 d0 older1 later s2 same d2 older2]
  obtain st3 where "merge_file sample_platform ''s2/f'' ''dst/f'' ?st2 = Inr st3"
    and "files st3 = files ?st2" by blast
  then have "\<exists>st3. merge_file sample_platform ''s2/f'' ''dst/f'' ?st2 = Inr st3 \<and>
     files st3 = files ?st1 \<and>
     map_of (files st3) ''dst/f--1970-01-01--at--00-00-10'' = Some (regular ''B'' 10) \<and>
     map_of (files st3) ''dst/f--1970-01-01--at--00-00-20'' = None"
    using a b f2 by simp
  moreover have "map_of (two_source_tree ''A'' 30 ''B'' 10 ''B'' 20) ''s1/f'' = Some (regular ''B'' 10)"
    by (simp add: two_source_tree_def)
  moreover have "map_of (two_source_tree ''A'' 30 ''B'' 10 ''B'' 20) ''dst/f'' = Some (regular ''A'' 30)"
    by (simp add: two_source_tree_def)
  ultimately show ?thesis using ret later s2 d2 unfolding regular_def [symmetric] by simp
qed

subsection \<open>C7: running the merge a second time\<close>

text \<open>
  Claim C7: merging the same source roots into the same destination a second time, with
  no file changed in between, creates no file, renames nothing and changes no time: the
  destination tree after the second run is the tree after the first run.

  \<^verbatim>\<open>dest_hashes\<close> lives in the process and starts empty in every run. Counterexample:
  the destination file has time 10 and content \<^verbatim>\<open>A\<close>, the first source root has it
  with time 20 and content \<^verbatim>\<open>B\<close>, the second with time 15 and content \<^verbatim>\<open>A\<close>.
  The first run renames the destination file away, copies \<^verbatim>\<open>B\<close> in, and skips the
  file of the second root, whose digest it remembers. The second run no longer knows that
  digest and saves the file of the second root under a new suffixed name.
\<close>

theorem rerun_counterexample:
  "fst (main sample_platform 100 two_source_args (start (two_source_tree ''A'' 10 ''B'' 20 ''A'' 15))) = Completed \<and>
   fst (main sample_platform 100 two_source_args
      (start (files (snd (main sample_platform 100 two_source_args
         (start (two_source_tree ''A'' 10 ''B'' 20 ''A'' 15))))))) = Completed \<and>
   map_of (files (snd (main sample_platform 100 two_source_args
         (start (two_source_tree ''A'' 10 ''B'' 20 ''A'' 15))))) ''dst/f--1970-01-01--at--00-00-15'' = None \<and>
   map_of (files (snd (main sample_platform 100 two_source_args
      (start (files (snd (main sample_platform 100 two_source_args
         (start (two_source_tree ''A'' 10 ''B'' 20 ''A'' 15)))))))))
      ''dst/f--1970-01-01--at--00-00-15'' = Some (regular ''A'' 15)"
  by code_simp

text \<open>
  Claim C7 as amended: merging one file again, in a new process (empty
  \<^verbatim>\<open>dest_hashes\<close>) and with no file changed in between, returns and leaves the file
  system exactly as the first merge of that file left it, provided the first merge of the
  file started without an entry for the destination path, as every first visit of a path
  in a run does.
\<close>

theorem second_merge_changes_nothing:
  assumes first: "merge_file pf s d st = Inr st1" and fresh: "dest_hashes st d = None"
  shows "\<exists>st2. merge_file pf s d (st1\<lparr>dest_hashes := Map.empty\<rparr>) = Inr st2 \<and> files st2 = files st1"
proof (cases "os_path_exists (files st) d")
  case False
  from merge_file_Inr_absent [OF first False] obtain f where
    s: "map_of (files st) s = Some (File f)" and sd: "s \<noteq> d"
    and f1: "files st1 = AList.update d (File f) (files st)" by blast
  let ?st = "st1\<lparr>dest_hashes := Map.empty\<rparr>"
  have s1: "map_of (files ?st) s = Some (File f)" using s sd f1 by (simp add: update_conv')
  have d1: "map_of (files ?st) d = Some (File f)" using f1 by (simp add: update_conv')
  from equal_times [OF s1 d1 refl, of pf] show ?thesis by simp
next
  case True
  from merge_file_Inr_exists [OF first True] obtain fs fd where
    s: "map_of (files st) s = Some (File fs)" and d: "map_of (files st) d = Some (File fd)" by blast
  let ?sh = "md5_hexdigest pf (content fs)"
  let ?dh = "md5_hexdigest pf (content fd)"
  let ?sta = "st\<lparr>dest_hashes := (dest_hashes st)(d \<mapsto> record_hash ?dh (ledger st d))\<rparr>"
  let ?st = "st1\<lparr>dest_hashes := Map.empty\<rparr>"
  have l0: "ledger st d = []" using fresh by (simp add: ledger_def)
  have l1: "ledger ?st d = []" by (simp add: ledger_def)
  consider (newer_same) "st_mtime fd < st_mtime fs" "?sh = ?dh"
    | (newer_diff) "st_mtime fd < st_mtime fs" "?sh \<noteq> ?dh"
    | (equal) "st_mtime fs = st_mtime fd"
    | (older_same) "st_mtime fs < st_mtime fd" "?sh = ?dh"
    | (older_diff) "st_mtime fs < st_mtime fd" "?sh \<noteq> ?dh"
    by linarith
  then show ?thesis
  proof cases
    case newer_same
    let ?fs' = "fs\<lparr>st_atime := st_mtime fs\<rparr>"
    have sd: "s \<noteq> d" using s d newer_same(1) by auto
    from newer_identical [OF s d newer_same] first
    have f1: "files st1 = AList.update s (File ?fs') (files st)" by auto
    have s1: "map_of (files ?st) s = Some (File ?fs')" using f1 by (simp add: update_conv')
    have d1: "map_of (files ?st) d = Some (File fd)" using f1 d sd by (simp add: update_conv')
    have n1: "st_mtime fd < st_mtime ?fs'" using newer_same(1) by simp
    have h1: "md5_hexdigest pf (content ?fs') = ?dh" using newer_same(2) by simp
    from newer_identical [OF s1 d1 n1 h1] f1 show ?thesis by simp
  next
    case newer_diff
    let ?t = "d @ ''--'' @ ts_str pf (st_mtime fd)"
    let ?p = "print (s @ ''; newer and different; save/copy'') ?sta"
    have sd: "s \<noteq> d" using s d newer_diff(1) by auto
    have nb: "newer_branch pf s d (st_mtime fs) (st_mtime fd) ?sh ?dh ?sta = Inr st1"
      using first newer_diff(1) by (simp add: merge_file_conflict [OF s d] Let_def)
    then obtain stm stc where mv: "on_files (shutil_move d ?t) ?p = Inr stm"
      and cp: "on_files (shutil_copy2 s d) stm = Inr stc"
      and ap: "append_hash d ?sh stc = Inr st1"
      using newer_diff(2) by (auto simp: newer_branch_def split: sum.splits)
    from ap have f1: "files st1 = files stc" by (auto simp: append_hash_def split: option.splits)
    have "shutil_move d ?t (files st) = Inr (files stm)"
      using on_files_Inr [OF mv] by (simp add: print_def)
    from shutil_move_Inr [OF this _ d] obtain r where rd: "r \<noteq> d"
      and fm: "files stm = AList.update r (File fd) (AList.delete d (files st))" by auto
    have nd: "\<not> os_path_isdir (files stm) d"
      using rd fm by (simp add: os_path_isdir_def update_conv' delete_conv')
    from shutil_copy2_Inr [OF on_files_Inr [OF cp]] nd obtain g where
      sm: "map_of (files stm) s = Some (File g)"
      and fc: "files stc = AList.update d (File g) (files stm)" by auto
    have s1: "map_of (files ?st) s = Some (File g)" using sm sd fc f1 by (simp add: update_conv')
    have d1: "map_of (files ?st) d = Some (File g)" using fc f1 by (simp add: update_conv')
    from equal_times [OF s1 d1 refl, of pf] show ?thesis by simp
  next
    case equal
    from equal_times [OF s d equal, of pf] first have f1: "files st1 = files st" by auto
    have s1: "map_of (files ?st) s = Some (File fs)" using s f1 by simp
    have d1: "map_of (files ?st) d = Some (File fd)" using d f1 by simp
    from equal_times [OF s1 d1 equal, of pf] show ?thesis by simp
  next
    case older_same
    have k: "?sh \<in> set (record_hash ?dh (ledger st d))"
      using older_same(2) by (simp add: record_hash_def)
    from older_known [OF s d older_same(1) k] first have f1: "files st1 = files st" by auto
    have s1: "map_of (files ?st) s = Some (File fs)" using s f1 by simp
    have d1: "map_of (files ?st) d = Some (File fd)" using d f1 by simp
    have k1: "?sh \<in> set (record_hash ?dh (ledger ?st d))"
      using older_same(2) by (simp add: record_hash_def)
    from older_known [OF s1 d1 older_same(1) k1] show ?thesis by simp
  next
    case older_diff
    let ?t = "d @ ''--'' @ ts_str pf (st_mtime fs)"
    let ?p = "print (s @ ''; older but different; saving'') ?sta"
    have ob: "older_branch pf s d (st_mtime fs) ?sh ?sta = Inr st1"
      using first older_diff(1) by (simp add: merge_file_conflict [OF s d] Let_def)
    have unk: "?sh \<notin> set (record_hash ?dh (ledger st d))"
      using older_diff(2) l0 by (simp add: record_hash_def)
    from ob unk obtain stc where cp: "on_files (shutil_copy2 s ?t) ?p = Inr stc"
      and ap: "append_hash d ?sh stc = Inr st1"
      by (auto simp: older_branch_def hash_known_def split: sum.splits)
    from ap have f1: "files st1 = files stc" by (auto simp: append_hash_def split: option.splits)
    have c0: "shutil_copy2 s ?t (files st) = Inr (files st1)"
      using on_files_Inr [OF cp] f1 by (simp add: print_def)
    let ?r = "if os_path_isdir (files st) ?t then sep_join ?t (basename s) else ?t"
    from shutil_copy2_Inr [OF c0] have rs: "?r \<noteq> s"
      and fr: "files st1 = AList.update ?r (File fs) (files st)" using s by auto
    have rd: "?r \<noteq> d" using suffix_neq_self [of d "ts_str pf (st_mtime fs)"] by auto
    have s1: "map_of (files ?st) s = Some (File fs)" using s rs fr by (simp add: update_conv')
    have d1: "map_of (files ?st) d = Some (File fd)" using d rd fr by (simp add: update_conv')
    let ?stb = "?st\<lparr>dest_hashes := (dest_hashes ?st)(d \<mapsto> record_hash ?dh (ledger ?st d))\<rparr>"
    have c1: "shutil_copy2 s ?t (files st1) = Inr (files st1)"
      using c0 by (rule shutil_copy2_again)
    have "older_branch pf s d (st_mtime fs) ?sh ?stb =
            Inr (?stb\<lparr>stdout := stdout ?stb @ [s @ ''; older but different; saving''],
                       dest_hashes := (dest_hashes ?stb)(d \<mapsto> record_hash ?dh (ledger ?st d) @ [?sh])\<rparr>)"
      using older_diff(2) c1 l1
      by (simp add: older_branch_def hash_known_def on_files_def print_def append_hash_def record_hash_def)
    then show ?thesis
      using older_diff(1) by (simp add: merge_file_conflict [OF s1 d1] Let_def)
  qed
qed

theorem second_merge_changes_nothing_witness:
  "returned (merge_file sample_platform ''src/f'' ''dst/f'' (start (sample_tree ''A'' 20 ''B'' 10))) \<and>
   dest_hashes (start (sample_tree ''A'' 20 ''B'' 10)) ''dst/f'' = None \<and>
   (\<exists>st2. merge_file sample_platform ''src/f'' ''dst/f''
        ((state_of (merge_file sample_platform ''src/f'' ''dst/f'' (start (sample_tree ''A'' 20 ''B'' 10))))
           \<lparr>dest_hashes := Map.empty\<rparr>) = Inr st2 \<and>
      files st2 = files (state_of (merge_file sample_platform ''src/f'' ''dst/f''
                                    (start (sample_tree ''A'' 20 ''B'' 10)))) \<and>
      map_of (files st2) ''dst/f--1970-01-01--at--00-00-10'' = Some (regular ''B'' 10))"
proof -
  let ?st = "start (sample_tree ''A'' 20 ''B'' 10)"
  let ?r = "merge_file sample_platform ''src/f'' ''dst/f'' ?st"
  have ret: "returned ?r" by code_simp
  have first: "?r = Inr (state_of ?r)" using ret by (rule returned_state_of)
  have fresh: "dest_hashes ?st ''dst/f'' = None" by (simp add: start_def)
  have copy: "map_of (files (state_of ?r)) ''dst/f--1970-01-01--at--00-00-10'' = Some (regular ''B'' 10)"
    by code_simp
  from second_merge_changes_nothing [OF first fresh]
  obtain st2 where "merge_file sample_platform ''src/f'' ''dst/f''
        ((state_of ?r)\<lparr>dest_hashes := Map.empty\<rparr>) = Inr st2"
    and "files st2 = files (state_of ?r)" by auto
  with copy have "\<exists>st2. merge_file sample_platform ''src/f'' ''dst/f''
        ((state_of ?r)\<lparr>dest_hashes := Map.empty\<rparr>) = Inr st2 \<and>
      files st2 = files (state_of ?r) \<and>
      map_of (files st2) ''dst/f--1970-01-01--at--00-00-10'' = Some (regular ''B'' 10)"
    by simp
  with ret fresh show ?thesis by simp
qed

subsection \<open>C2: no content of a source file is lost\<close>


text \<open>
  A second way to lose content is a save onto a suffixed name that is taken. Two source
  roots hold files of the same second, both older than the destination file: the copy of
  the first is overwritten by the copy of the second, the run completes, and no path of
  the destination holds the first one's digest.
\<close>

lemma overwritten_copy_lost:
  "fst (main sample_platform 100 two_source_args (start (two_source_tree ''A'' 30 ''B'' 10 ''C'' 10))) = Completed \<and>
   map_of (two_source_tree ''A'' 30 ''B'' 10 ''C'' 10) ''s1/f'' = Some (regular ''B'' 10) \<and>
   \<not> preserved sample_platform
       (files (snd (main sample_platform 100 two_source_args (start (two_source_tree ''A'' 30 ''B'' 10 ''C'' 10)))))
       ''dst/f'' (md5_hexdigest sample_platform ''B'')"
  by code_simp



subsection \<open>C8: a digest is recorded once\<close>

text \<open>
  Claim C8: for every destination path a digest is added to the path's entry at most
  once over the whole run, whichever operation records it (\<^verbatim>\<open>assure_dest_hash\<close>, the
  newer-and-different branch, the older-and-different branch).

  \<^verbatim>\<open>assure_dest_hash\<close> and the older branch test membership before they append; the
  newer-and-different branch appends without the test (lemma \<open>newer_different\<close>). In
  the run below the destination file has time 10 and content \<^verbatim>\<open>A\<close>; the first source
  root has it older with content \<^verbatim>\<open>B\<close>, which is saved and recorded; the second
  source root has it newer with the same content \<^verbatim>\<open>B\<close>, which differs from the
  destination's and is recorded again. The entry ends with the digest of \<^verbatim>\<open>B\<close> twice.
\<close>

theorem digest_recorded_twice:
  "fst (main sample_platform 100 two_source_args (start (two_source_tree ''A'' 10 ''B'' 5 ''B'' 20))) = Completed \<and>
   dest_hashes (snd (main sample_platform 100 two_source_args
      (start (two_source_tree ''A'' 10 ''B'' 5 ''B'' 20)))) ''dst/f'' = Some [''A'', ''B'', ''B'']"
  by code_simp

subsection \<open>C9: the arguments are checked before anything is merged\<close>

text \<open>
  Claim C9: validation happens entirely before any merge work: at least one source path
  is required, every source path must be a directory, and any violation, an invalid
  destination included, makes the process exit with a non-zero status and a message
  naming the bad path before any file or directory is created or changed; normal
  completion exits with status 0.

  The script declares the sources with \<^verbatim>\<open>nargs='*'\<close> and never looks at the
  destination before \<^verbatim>\<open>recurse_dir\<close> does. Counterexample: with no source path, and a
  destination that is a regular file, the run completes with status 0.
\<close>

theorem no_source_counterexample:
  "exit_status (fst (main sample_platform 100 \<lparr>destination = ''dst/f'', source = []\<rparr>
      (start (sample_tree ''A'' 10 ''B'' 20)))) = 0 \<and>
   map_of (sample_tree ''A'' 10 ''B'' 20) ''dst/f'' = Some (regular ''A'' 10) \<and>
   main sample_platform 100 \<lparr>destination = ''dst/f'', source = []\<rparr> (start (sample_tree ''A'' 10 ''B'' 20)) =
     (Completed, print ''Run complete'' (start (sample_tree ''A'' 10 ''B'' 20)))"
  by (simp add: main_def sample_tree_def)

text \<open>
  Claim C9 as amended. The sources are checked before any merge work: if some source path
  is not a directory, the script prints the error naming the first such path and exits by
  \<^verbatim>\<open>sys.exit(-1)\<close>, a non-zero status, with the file system untouched. The
  destination is checked only by the first \<^verbatim>\<open>recurse_dir\<close>: with all sources valid
  and at least one of them, a destination that is not a directory and that
  \<^verbatim>\<open>os.mkdir\<close> cannot make (it exists as a file, or its parent is missing or is a
  file) ends the run with an exception nobody catches, which names the destination, a
  non-zero status and the file system untouched. No source path is needed: without one
  the run completes and touches nothing. The exit status is 0 exactly when every source is
  a directory and the merge of the sources returns.
\<close>

theorem argument_validation:
  "(find (\<lambda>src. \<not> os_path_isdir (files st) src) (source a) = Some bad \<longrightarrow>
      main pf limit a st =
        (SysExit (- 1), print (''ERROR: source path '' @ bad @ '' does not exist'') st) \<and>
      exit_status (fst (main pf limit a st)) \<noteq> 0 \<and>
      files (snd (main pf limit a st)) = files st) \<and>
   (find (\<lambda>src. \<not> os_path_isdir (files st) src) (source a) = None \<and> source a \<noteq> [] \<and>
    \<not> os_path_isdir (files st) (destination a) \<and> os_mkdir (destination a) (files st) = Inl e \<longrightarrow>
      fst (main pf limit a st) = Uncaught (if limit = 0 then RecursionError else e) \<and>
      (e = FileExistsError (destination a) \<or> e = FileNotFoundError (destination a) \<or>
       e = NotADirectoryError (destination a)) \<and>
      exit_status (fst (main pf limit a st)) \<noteq> 0 \<and>
      files (snd (main pf limit a st)) = files st) \<and>
   (source a = [] \<longrightarrow> main pf limit a st = (Completed, print ''Run complete'' st)) \<and>
   (exit_status (fst (main pf limit a st)) = 0 \<longleftrightarrow>
      find (\<lambda>src. \<not> os_path_isdir (files st) src) (source a) = None \<and>
      returned (merge_sources pf a limit (source a) st))"
proof (intro conjI impI)
  assume "find (\<lambda>src. \<not> os_path_isdir (files st) src) (source a) = Some bad"
  from main_bad_source [OF this, of pf limit]
  show "main pf limit a st =
        (SysExit (- 1), print (''ERROR: source path '' @ bad @ '' does not exist'') st)"
    and "exit_status (fst (main pf limit a st)) \<noteq> 0"
    and "files (snd (main pf limit a st)) = files st"
    by (simp_all add: print_def)
next
  assume h: "find (\<lambda>src. \<not> os_path_isdir (files st) src) (source a) = None \<and> source a \<noteq> [] \<and>
    \<not> os_path_isdir (files st) (destination a) \<and> os_mkdir (destination a) (files st) = Inl e"
  then obtain src rest where some: "source a = src # rest" by (cases "source a") auto
  have m: "main pf limit a st =
           (Uncaught (if limit = 0 then RecursionError else e),
            print (''####### Processing source '' @ src @ '' #######'') st)"
    by (rule main_bad_destination) (use h some in simp_all)
  from m show "fst (main pf limit a st) = Uncaught (if limit = 0 then RecursionError else e)" by simp
  from h os_mkdir_Inl show "e = FileExistsError (destination a) \<or> e = FileNotFoundError (destination a) \<or>
       e = NotADirectoryError (destination a)" by blast
  from m show "exit_status (fst (main pf limit a st)) \<noteq> 0" by simp
  from m show "files (snd (main pf limit a st)) = files st" by (simp add: print_def)
next
  assume "source a = []"
  then show "main pf limit a st = (Completed, print ''Run complete'' st)"
    by (simp add: main_def)
next
  show "exit_status (fst (main pf limit a st)) = 0 \<longleftrightarrow>
      find (\<lambda>src. \<not> os_path_isdir (files st) src) (source a) = None \<and>
      returned (merge_sources pf a limit (source a) st)"
    by (rule exit_status_main)
qed

theorem argument_validation_witness:
  "find (\<lambda>src. \<not> os_path_isdir (files (start (sample_tree ''A'' 10 ''B'' 20))) src) [''src'', ''nope''] = Some ''nope'' \<and>
   main sample_platform 100 \<lparr>destination = ''dst'', source = [''src'', ''nope'']\<rparr>
       (start (sample_tree ''A'' 10 ''B'' 20)) =
     (SysExit (- 1), print ''ERROR: source path nope does not exist'' (start (sample_tree ''A'' 10 ''B'' 20))) \<and>
   find (\<lambda>src. \<not> os_path_isdir (files (start (sample_tree ''A'' 10 ''B'' 20))) src) [''src''] = None \<and>
   \<not> os_path_isdir (files (start (sample_tree ''A'' 10 ''B'' 20))) ''dst/f'' \<and>
   os_mkdir ''dst/f'' (files (start (sample_tree ''A'' 10 ''B'' 20))) = Inl (FileExistsError ''dst/f'') \<and>
   fst (main sample_platform 100 \<lparr>destination = ''dst/f'', source = [''src'']\<rparr>
       (start (sample_tree ''A'' 10 ''B'' 20))) = Uncaught (FileExistsError ''dst/f'') \<and>
   files (snd (main sample_platform 100 \<lparr>destination = ''dst/f'', source = [''src'']\<rparr>
       (start (sample_tree ''A'' 10 ''B'' 20)))) = sample_tree ''A'' 10 ''B'' 20"
proof -
  let ?st = "start (sample_tree ''A'' 10 ''B'' 20)"
  let ?a1 = "\<lparr>destination = ''dst'', source = [''src'', ''nope'']\<rparr>"
  let ?a2 = "\<lparr>destination = ''dst/f'', source = [''src'']\<rparr>"
  have h1: "find (\<lambda>src. \<not> os_path_isdir (files ?st) src) (source ?a1) = Some ''nope''"
    by (simp add: os_path_isdir_def start_def sample_tree_def regular_def)
  have h2: "find (\<lambda>src. \<not> os_path_isdir (files ?st) src) (source ?a2) = None \<and> source ?a2 \<noteq> [] \<and>
      \<not> os_path_isdir (files ?st) (destination ?a2) \<and>
      os_mkdir (destination ?a2) (files ?st) = Inl (FileExistsError ''dst/f'')"
    by (simp add: os_path_isdir_def os_mkdir_def os_path_exists_def start_def sample_tree_def regular_def)
  from argument_validation [where st = ?st and a = ?a1 and bad = "''nope''" and pf = sample_platform
      and limit = 100, THEN conjunct1, THEN mp, OF h1]
  have c1: "main sample_platform 100 ?a1 ?st =
     (SysExit (- 1), print ''ERROR: source path nope does not exist'' ?st)"
    by simp
  from argument_validation [where st = ?st and a = ?a2 and e = "FileExistsError ''dst/f''"
      and pf = sample_platform and limit = 100, THEN conjunct2, THEN conjunct1, THEN mp, OF h2]
  have c2: "fst (main sample_platform 100 ?a2 ?st) = Uncaught (FileExistsError ''dst/f'') \<and>
      files (snd (main sample_platform 100 ?a2 ?st)) = sample_tree ''A'' 10 ''B'' 20"
    by (simp add: start_def)
  from h1 h2 c1 c2 show ?thesis by simp
qed

subsection \<open>C10: a file where a directory is expected, and the reverse\<close>

text \<open>
  Claim C10: when a source directory's destination path is a regular file (making the
  directory fails), or a source file's destination path is a directory (opening it for
  hashing fails), the merge raises an error nobody handles and the run is aborted; nothing
  is overwritten, skipped or merged across the mismatch.

  In the theorem: the loop raises \<^verbatim>\<open>FileExistsError\<close> at an entry that is a directory
  in the source and a regular file in the destination, in the state it was in;
  it raises \<^verbatim>\<open>IsADirectoryError\<close> at an entry that is a regular file in the source
  and a directory in the destination, with the file system and the console as they were;
  \<^verbatim>\<open>recurse_dir\<close> raises \<^verbatim>\<open>FileExistsError\<close> when its own destination is a regular
  file. The remaining parts say that this aborts the run: the entries before the mismatch
  only fix the state in which it is met, the loop hands an exception of a nested
  \<^verbatim>\<open>recurse_dir\<close> on, \<^verbatim>\<open>recurse_dir\<close> hands on the exception of its loop, the
  loop over the source roots hands on the exception of \<^verbatim>\<open>recurse_dir\<close> without
  visiting the remaining roots, and the script ends with that exception uncaught and
  exit status 1.
\<close>

theorem type_mismatch_aborts:
  "(os_path_isdir (files st) (sep_join (source_path source_dir sub_dir) f) \<and>
    map_of (files st) (sep_join (dest_path a sub_dir) f) = Some (File g) \<longrightarrow>
      walk pf a (Suc n) source_dir sub_dir (f # rest) st =
        Inl (FileExistsError (sep_join (dest_path a sub_dir) f), st)) \<and>
   (map_of (files st) (sep_join (source_path source_dir sub_dir) f) = Some (File g) \<and>
    map_of (files st) (sep_join (dest_path a sub_dir) f) = Some Dir \<longrightarrow>
      (\<exists>st'. walk pf a n source_dir sub_dir (f # rest) st =
                Inl (IsADirectoryError (sep_join (dest_path a sub_dir) f), st') \<and>
             files st' = files st \<and> stdout st' = stdout st)) \<and>
   (map_of (files st) (dest_path a sub_dir) = Some (File g) \<longrightarrow>
      recurse_dir pf a (Suc n) source_dir sub_dir st =
        Inl (FileExistsError (dest_path a sub_dir), st)) \<and>
   (walk pf a n source_dir sub_dir pre st0 = Inr st \<longrightarrow>
      walk pf a n source_dir sub_dir (pre @ later) st0 = walk pf a n source_dir sub_dir later st) \<and>
   (os_path_isdir (files st) (sep_join (source_path source_dir sub_dir) f) \<and>
    recurse_dir pf a n source_dir (Some (case sub_dir of None \<Rightarrow> f | Some sd \<Rightarrow> sep_join sd f)) st = Inl x \<longrightarrow>
      walk pf a n source_dir sub_dir (f # rest) st = Inl x) \<and>
   (os_path_isdir (files st) (dest_path a sub_dir) \<and>
    os_listdir (files st) (source_path source_dir sub_dir) = Inr names \<and>
    walk pf a n source_dir sub_dir names st = Inl x \<longrightarrow>
      recurse_dir pf a (Suc n) source_dir sub_dir st = Inl x) \<and>
   (recurse_dir pf a limit src None (print (''####### Processing source '' @ src @ '' #######'') st) = Inl x \<longrightarrow>
      merge_sources pf a limit (src # srcs) st = Inl x) \<and>
   (find (\<lambda>src. \<not> os_path_isdir (files st) src) (source a) = None \<and>
    merge_sources pf a limit (source a) st = Inl (e, st') \<longrightarrow>
      main pf limit a st = (Uncaught e, st') \<and> exit_status (fst (main pf limit a st)) = 1)"
proof (intro conjI impI)
  assume "os_path_isdir (files st) (sep_join (source_path source_dir sub_dir) f) \<and>
    map_of (files st) (sep_join (dest_path a sub_dir) f) = Some (File g)"
  then show "walk pf a (Suc n) source_dir sub_dir (f # rest) st =
        Inl (FileExistsError (sep_join (dest_path a sub_dir) f), st)"
    using walk_dir_onto_file by blast
next
  assume "map_of (files st) (sep_join (source_path source_dir sub_dir) f) = Some (File g) \<and>
    map_of (files st) (sep_join (dest_path a sub_dir) f) = Some Dir"
  then show "\<exists>st'. walk pf a n source_dir sub_dir (f # rest) st =
                Inl (IsADirectoryError (sep_join (dest_path a sub_dir) f), st') \<and>
             files st' = files st \<and> stdout st' = stdout st"
    using walk_file_onto_dir by blast
next
  assume "map_of (files st) (dest_path a sub_dir) = Some (File g)"
  then show "recurse_dir pf a (Suc n) source_dir sub_dir st =
        Inl (FileExistsError (dest_path a sub_dir), st)"
    by (rule recurse_dir_onto_file)
next
  assume "walk pf a n source_dir sub_dir pre st0 = Inr st"
  then show "walk pf a n source_dir sub_dir (pre @ later) st0 = walk pf a n source_dir sub_dir later st"
    by (rule walk_append)
next
  assume "os_path_isdir (files st) (sep_join (source_path source_dir sub_dir) f) \<and>
    recurse_dir pf a n source_dir (Some (case sub_dir of None \<Rightarrow> f | Some sd \<Rightarrow> sep_join sd f)) st = Inl x"
  then show "walk pf a n source_dir sub_dir (f # rest) st = Inl x"
    using walk_recurse_dir_raises by blast
next
  assume "os_path_isdir (files st) (dest_path a sub_dir) \<and>
    os_listdir (files st) (source_path source_dir sub_dir) = Inr names \<and>
    walk pf a n source_dir sub_dir names st = Inl x"
  then show "recurse_dir pf a (Suc n) source_dir sub_dir st = Inl x"
    using recurse_dir_walk_raises by blast
next
  assume "recurse_dir pf a limit src None (print (''####### Processing source '' @ src @ '' #######'') st) = Inl x"
  then show "merge_sources pf a limit (src # srcs) st = Inl x"
    by (rule merge_sources_first_raises)
next
  assume h: "find (\<lambda>src. \<not> os_path_isdir (files st) src) (source a) = None \<and>
    merge_sources pf a limit (source a) st = Inl (e, st')"
  then have m: "main pf limit a st = (Uncaught e, st')" using main_uncaught by blast
  then show "main pf limit a st = (Uncaught e, st')" .
  from m show "exit_status (fst (main pf limit a st)) = 1" by simp
qed

theorem type_mismatch_aborts_witness:
  "os_path_isdir dir_onto_file_tree ''src/sub'' \<and>
   map_of dir_onto_file_tree ''dst/sub'' = Some (File \<lparr>content = ''A'', st_atime = 10, st_mtime = 10\<rparr>) \<and>
   walk sample_platform sample_args (Suc 98) ''src'' None [''sub''] (start dir_onto_file_tree) =
     Inl (FileExistsError ''dst/sub'', start dir_onto_file_tree) \<and>
   map_of file_onto_dir_tree ''src/f'' = Some (File \<lparr>content = ''B'', st_atime = 20, st_mtime = 20\<rparr>) \<and>
   map_of file_onto_dir_tree ''dst/f'' = Some Dir \<and>
   (\<exists>st'. walk sample_platform sample_args 99 ''src'' None [''f''] (start file_onto_dir_tree) =
            Inl (IsADirectoryError ''dst/f'', st') \<and>
          files st' = file_onto_dir_tree) \<and>
   fst (main sample_platform 100 sample_args (start dir_onto_file_tree)) =
     Uncaught (FileExistsError ''dst/sub'') \<and>
   files (snd (main sample_platform 100 sample_args (start dir_onto_file_tree))) = dir_onto_file_tree \<and>
   fst (main sample_platform 100 sample_args (start file_onto_dir_tree)) =
     Uncaught (IsADirectoryError ''dst/f'') \<and>
   files (snd (main sample_platform 100 sample_args (start file_onto_dir_tree))) = file_onto_dir_tree"
proof -
  let ?A = "start dir_onto_file_tree"
  let ?B = "start file_onto_dir_tree"
  let ?g = "\<lparr>content = ''A'', st_atime = 10, st_mtime = 10\<rparr> :: regfile"
  let ?h = "\<lparr>content = ''B'', st_atime = 20, st_mtime = 20\<rparr> :: regfile"
  have paths: "sep_join (source_path ''src'' None) ''sub'' = ''src/sub''"
    "sep_join (dest_path sample_args None) ''sub'' = ''dst/sub''"
    "sep_join (source_path ''src'' None) ''f'' = ''src/f''"
    "sep_join (dest_path sample_args None) ''f'' = ''dst/f''"
    by (simp_all add: source_path_def dest_path_def sep_join_def sample_args_def)
  have a1: "os_path_isdir dir_onto_file_tree ''src/sub''"
    by (simp add: os_path_isdir_def dir_onto_file_tree_def regular_def)
  have a2: "map_of dir_onto_file_tree ''dst/sub'' = Some (File ?g)"
    by (simp add: dir_onto_file_tree_def regular_def)
  have b1: "map_of file_onto_dir_tree ''src/f'' = Some (File ?h)"
    by (simp add: file_onto_dir_tree_def regular_def)
  have b2: "map_of file_onto_dir_tree ''dst/f'' = Some Dir"
    by (simp add: file_onto_dir_tree_def regular_def)
  have ha: "os_path_isdir (files ?A) (sep_join (source_path ''src'' None) ''sub'') \<and>
      map_of (files ?A) (sep_join (dest_path sample_args None) ''sub'') = Some (File ?g)"
    using a1 a2 by (simp add: paths start_def)
  have hb: "map_of (files ?B) (sep_join (source_path ''src'' None) ''f'') = Some (File ?h) \<and>
      map_of (files ?B) (sep_join (dest_path sample_args None) ''f'') = Some Dir"
    using b1 b2 by (simp add: paths start_def)
  from type_mismatch_aborts [where st = ?A and source_dir = "''src''" and sub_dir = None
      and f = "''sub''" and a = sample_args and g = ?g and pf = sample_platform and n = 98
      and rest = "[]", THEN conjunct1, THEN mp, OF ha]
  have ca: "walk sample_platform sample_args (Suc 98) ''src'' None [''sub''] ?A =
      Inl (FileExistsError ''dst/sub'', ?A)"
    by (simp add: paths)
  from type_mismatch_aborts [where st = ?B and source_dir = "''src''" and sub_dir = None
      and f = "''f''" and a = sample_args and g = ?h and pf = sample_platform and n = 99
      and rest = "[]", THEN conjunct2, THEN conjunct1, THEN mp, OF hb]
  have cb: "\<exists>st'. walk sample_platform sample_args 99 ''src'' None [''f''] ?B =
      Inl (IsADirectoryError ''dst/f'', st') \<and> files st' = file_onto_dir_tree"
    by (auto simp: paths start_def)
  have ma: "fst (main sample_platform 100 sample_args ?A) = Uncaught (FileExistsError ''dst/sub'')"
    by code_simp
  have ma': "files (snd (main sample_platform 100 sample_args ?A)) = dir_onto_file_tree"
    by code_simp
  have mb: "fst (main sample_platform 100 sample_args ?B) = Uncaught (IsADirectoryError ''dst/f'')"
    by code_simp
  have mc: "files (snd (main sample_platform 100 sample_args ?B)) = file_onto_dir_tree"
    by code_simp
  from a1 a2 b1 b2 ca cb ma ma' mb mc show ?thesis by simp
qed

end
